theory Spec2Isabelle
  imports Complex_Main "HOL-Library.AList"
begin

section \<open>Data model of the game server (server.js)\<close>

text \<open>
  Coordinates are JavaScript numbers holding integers: a coordinate is an \<open>int\<close>, and
  the arithmetic the code does on coordinates is the arithmetic of doubles (below).
  The board is a JavaScript \<open>Map\<close> keyed by the string \<open>"x,y"\<close>; for integer
  coordinates that key is in one-to-one correspondence with the pair \<open>(x, y)\<close>.
  A \<open>Map\<close> is an insertion-ordered list of entries: \<open>Map.set\<close> overwrites the value of
  a key that is present (keeping its place) and appends a new key at the end, which is
  \<open>AList.update\<close>; \<open>Map.delete\<close> is \<open>AList.delete\<close>; \<open>Map.get\<close> is \<open>map_of\<close>;
  \<open>Map.size\<close> is \<open>length\<close>.

  Player ids are the strings produced by \<open>uuidv4()\<close>: always non-empty, hence truthy.
  They are modelled as naturals supplied by the environment with each join; a
  \<open>null\<close> owner is \<open>None\<close>. Socket ids and timestamps are naturals as well. A colour
  is represented by its index in the table \<open>PLAYER_COLORS\<close>, which has 100 entries.
\<close>

type_synonym coord = "int \<times> int"
type_synonym pid = nat
type_synonym sid = nat

datatype piece_type = Pawn | Rook | Knight | Bishop | Queen | King

record piece =
  piece_type :: piece_type
  piece_x :: int
  piece_y :: int
  piece_color :: nat
  playerId :: "pid option"

record player =
  player_id :: pid
  socketId :: sid
  player_name :: string
  player_color :: nat
  colorIndex :: nat
  isActive :: bool
  joinedAt :: nat

type_synonym board = "(coord \<times> piece) list"

record gameState =
  players :: "(pid \<times> player) list"
  board :: board
  nextPlayerIndex :: nat
  socketPlayerId :: "sid \<Rightarrow> pid option"

definition MAX_PLAYERS :: nat where
  "MAX_PLAYERS = 100"

definition PLAYER_COLORS_length :: nat where
  "PLAYER_COLORS_length = 100"

definition initialState :: gameState where
  "initialState = \<lparr> players = [], board = [], nextPlayerIndex = 0,
                      socketPlayerId = (\<lambda>_. None) \<rparr>"

record moveData =
  fromX :: int
  fromY :: int
  toX :: int
  toY :: int

record bounds =
  minX :: int
  maxX :: int
  minY :: int
  maxY :: int

text \<open>What a handler emits: to the calling socket (\<open>socket.emit\<close>), to every other
  socket (\<open>socket.broadcast.emit\<close>) or to all sockets (\<open>io.emit\<close>).\<close>

datatype target = ToSocket sid | ToOthers sid | ToAll

datatype event =
    GameFull
  | GameJoined pid player "piece list" "player list"
  | PlayerJoined player
  | InvalidMove string
  | PieceMoved pid moveData piece
  | BoardSection bounds "piece list"
  | PlayerLeft pid

subsection \<open>JavaScript numbers\<close>

text \<open>
  A payload coordinate is a finite double that holds an integer. Storing a piece and
  looking a cell up do no arithmetic, but the section query counts with \<open>x++\<close> and
  the validator subtracts coordinates and adds steps. A sum or difference of doubles
  is the exact result rounded to the nearest double, ties to the even significand
  (53 bits), and an infinity when the rounded result lies beyond the largest double;
  an infinity divided by itself is \<open>NaN\<close>. No other value arises from
  integer-valued operands here.

  \<open>spacing n\<close> is the distance between neighbouring doubles at magnitude \<open>n\<close>;
  \<open>roundToDouble\<close> rounds an integer with 53 bits of precision.
\<close>

function spacing :: "nat \<Rightarrow> int" where
  "spacing n = (if n < 2 ^ 53 then 1 else 2 * spacing (n div 2))"
  by pat_completeness auto
termination
  by (relation "measure id") auto

declare spacing.simps [simp del]

definition roundToDouble :: "int \<Rightarrow> int" where
  "roundToDouble v =
     (let q = spacing (nat \<bar>v\<bar>); lo = (v div q) * q; r = v - lo in
      if 2 * r < q then lo
      else if q < 2 * r then lo + q
      else if even (v div q) then lo else lo + q)"

datatype jsnum = Num int | PosInfinity | NegInfinity | NaN

definition fromExact :: "int \<Rightarrow> jsnum" where
  "fromExact v =
     (let r = roundToDouble v in
      if 2 ^ 1024 \<le> r then PosInfinity
      else if r \<le> - (2 ^ 1024) then NegInfinity
      else Num r)"

fun js_add :: "jsnum \<Rightarrow> jsnum \<Rightarrow> jsnum" where
  "js_add NaN b = NaN"
| "js_add a NaN = NaN"
| "js_add PosInfinity NegInfinity = NaN"
| "js_add NegInfinity PosInfinity = NaN"
| "js_add PosInfinity b = PosInfinity"
| "js_add a PosInfinity = PosInfinity"
| "js_add NegInfinity b = NegInfinity"
| "js_add a NegInfinity = NegInfinity"
| "js_add (Num a) (Num b) = fromExact (a + b)"

text \<open>\<open>a - b\<close> on two payload coordinates.\<close>

definition js_sub :: "int \<Rightarrow> int \<Rightarrow> jsnum" where
  "js_sub a b = fromExact (a - b)"

fun js_abs :: "jsnum \<Rightarrow> jsnum" where
  "js_abs (Num a) = Num \<bar>a\<bar>"
| "js_abs PosInfinity = PosInfinity"
| "js_abs NegInfinity = PosInfinity"
| "js_abs NaN = NaN"

text \<open>\<open>a === b\<close>: \<open>NaN\<close> equals nothing, itself included.\<close>

definition strictEq :: "jsnum \<Rightarrow> jsnum \<Rightarrow> bool" where
  "strictEq a b = (a = b \<and> a \<noteq> NaN)"

fun js_le :: "jsnum \<Rightarrow> jsnum \<Rightarrow> bool" where
  "js_le NaN b = False"
| "js_le a NaN = False"
| "js_le NegInfinity b = True"
| "js_le a PosInfinity = True"
| "js_le PosInfinity b = False"
| "js_le a NegInfinity = False"
| "js_le (Num a) (Num b) = (a \<le> b)"

definition js_lt :: "jsnum \<Rightarrow> jsnum \<Rightarrow> bool" where
  "js_lt a b = (js_le a b \<and> a \<noteq> b)"

text \<open>\<open>dx / Math.abs(dx)\<close>: exactly 1 or -1 for a finite non-zero \<open>dx\<close>.\<close>

fun unitStep :: "jsnum \<Rightarrow> jsnum" where
  "unitStep (Num d) = (if d = 0 then NaN else Num (sgn d))"
| "unitStep PosInfinity = NaN"
| "unitStep NegInfinity = NaN"
| "unitStep NaN = NaN"

text \<open>\<open>x++\<close> on a coordinate: one more than the largest double rounds back to it, so
  the increment never overflows.\<close>

definition increment :: "int \<Rightarrow> int" where
  "increment x = roundToDouble (x + 1)"

text \<open>\<open>Number.isSafeInteger\<close>: magnitude at most \<open>2^53 - 1\<close>.\<close>

definition safeInteger :: "int \<Rightarrow> bool" where
  "safeInteger v = (\<bar>v\<bar> \<le> 2 ^ 53 - 1)"

text \<open>What a call does: return a value, or throw a \<open>TypeError\<close>.\<close>

datatype 'a result = Value 'a | TypeError

subsection \<open>Spawn placement\<close>

text \<open>
  \<open>findSpawnPosition\<close> walks a spiral whose points are computed in floating point,
  \<open>(Math.round(radius * Math.cos(angle)), Math.round(radius * Math.sin(angle)))\<close>.
  The sequence of candidates does not depend on the board (and the only call is
  \<open>findSpawnPosition(25)\<close>), so it is a parameter here: \<open>spiralAt k\<close> is the
  candidate examined when \<open>attempts = k\<close>, and
  \<open>fallbackRing\<close> lists the candidates of the fallback scan in loop order.
  Every statement below holds for all such sequences.

  The distance test is \<open>Math.sqrt(Math.pow(x - pos.x, 2) + Math.pow(y - pos.y, 2)) >= minDistance\<close>
  on integers; the square root is taken in the reals.
\<close>

record spiral =
  spiralAt :: "nat \<Rightarrow> coord"
  fallbackRing :: "coord list"

definition distance :: "coord \<Rightarrow> coord \<Rightarrow> real" where
  "distance c pos = sqrt (real_of_int ((fst c - fst pos)\<^sup>2 + (snd c - snd pos)\<^sup>2))"

definition existingPositions :: "board \<Rightarrow> coord list" where
  "existingPositions b = map fst (filter (\<lambda>(key, piece). playerId piece \<noteq> None) b)"

definition validPosition :: "coord list \<Rightarrow> int \<Rightarrow> coord \<Rightarrow> bool" where
  "validPosition existing minDistance c =
     list_all (\<lambda>pos. distance c pos \<ge> real_of_int minDistance) existing"

definition maxAttempts :: nat where
  "maxAttempts = 10000"

function spiralSearch :: "spiral \<Rightarrow> coord list \<Rightarrow> int \<Rightarrow> nat \<Rightarrow> coord option" where
  "spiralSearch sp existing minDistance attempts =
     (if attempts < maxAttempts then
        (if validPosition existing minDistance (spiralAt sp attempts)
         then Some (spiralAt sp attempts)
         else spiralSearch sp existing minDistance (attempts + 1))
      else None)"
  by pat_completeness auto
termination
  by (relation "measure (\<lambda>(sp, existing, minDistance, attempts). maxAttempts - attempts)") auto

declare spiralSearch.simps [simp del]

text \<open>The fallback keeps the candidate with the largest minimum distance seen so far,
  starting from \<open>(0, 0)\<close> with \<open>maxMinDistance = 0\<close>; a later candidate wins only when
  strictly better.\<close>

definition minDistanceToExisting :: "coord list \<Rightarrow> coord \<Rightarrow> real" where
  "minDistanceToExisting existing c = Min (set (map (distance c) existing))"

fun fallbackScan :: "coord list \<Rightarrow> coord list \<Rightarrow> coord \<Rightarrow> real \<Rightarrow> coord" where
  "fallbackScan existing [] bestPosition maxMinDistance = bestPosition"
| "fallbackScan existing (c # cs) bestPosition maxMinDistance =
     (if minDistanceToExisting existing c > maxMinDistance
      then fallbackScan existing cs c (minDistanceToExisting existing c)
      else fallbackScan existing cs bestPosition maxMinDistance)"

definition findSpawnPosition :: "spiral \<Rightarrow> board \<Rightarrow> int \<Rightarrow> coord" where
  "findSpawnPosition sp b minDistance =
     (let existing = existingPositions b in
      if existing = [] then (0, 0)
      else case spiralSearch sp existing minDistance 0 of
             Some c \<Rightarrow> c
           | None \<Rightarrow> fallbackScan existing (fallbackRing sp) (0, 0) 0)"

definition mkPiece :: "piece_type \<Rightarrow> int \<Rightarrow> int \<Rightarrow> nat \<Rightarrow> pid \<Rightarrow> piece" where
  "mkPiece t x y playerColor pl =
     \<lparr> piece_type = t, piece_x = x, piece_y = y, piece_color = playerColor,
       playerId = Some pl \<rparr>"

definition startingPieces :: "coord \<Rightarrow> nat \<Rightarrow> pid \<Rightarrow> piece list" where
  "startingPieces spawnPos playerColor pl =
     (let x = fst spawnPos; y = snd spawnPos in
      [ mkPiece Rook (x - 3) y playerColor pl,
        mkPiece Knight (x - 2) y playerColor pl,
        mkPiece Bishop (x - 1) y playerColor pl,
        mkPiece Queen x y playerColor pl,
        mkPiece King (x + 1) y playerColor pl,
        mkPiece Bishop (x + 2) y playerColor pl,
        mkPiece Knight (x + 3) y playerColor pl,
        mkPiece Rook (x + 4) y playerColor pl,
        mkPiece Pawn (x - 3) (y + 1) playerColor pl,
        mkPiece Pawn (x - 2) (y + 1) playerColor pl,
        mkPiece Pawn (x - 1) (y + 1) playerColor pl,
        mkPiece Pawn x (y + 1) playerColor pl,
        mkPiece Pawn (x + 1) (y + 1) playerColor pl,
        mkPiece Pawn (x + 2) (y + 1) playerColor pl,
        mkPiece Pawn (x + 3) (y + 1) playerColor pl,
        mkPiece Pawn (x + 4) (y + 1) playerColor pl ])"

text \<open>\<open>pieces.forEach(piece => gameState.board.set(`${piece.x},${piece.y}`, piece))\<close>\<close>

fun addPieces :: "piece list \<Rightarrow> board \<Rightarrow> board" where
  "addPieces [] b = b"
| "addPieces (p # ps) b = addPieces ps (AList.update (piece_x p, piece_y p) p b)"

definition spawnPlayerPieces :: "spiral \<Rightarrow> board \<Rightarrow> pid \<Rightarrow> nat \<Rightarrow> board \<times> piece list" where
  "spawnPlayerPieces sp b pl playerColor =
     (let spawnPos = findSpawnPosition sp b 25;
          pieces = startingPieces spawnPos playerColor pl
      in (addPieces pieces b, pieces))"

subsection \<open>The socket handlers\<close>

fun decimal :: "nat \<Rightarrow> string" where
  "decimal n = (if n < 10 then [char_of (48 + n)]
                else decimal (n div 10) @ [char_of (48 + n mod 10)])"

declare decimal.simps [simp del]

text \<open>\<open>playerName || `Player${gameState.players.size + 1}`\<close>: a missing or empty
  name is falsy.\<close>

definition nameOrDefault :: "string option \<Rightarrow> nat \<Rightarrow> string" where
  "nameOrDefault playerName playersSize =
     (case playerName of
        None \<Rightarrow> ''Player'' @ decimal (playersSize + 1)
      | Some n \<Rightarrow> if n = [] then ''Player'' @ decimal (playersSize + 1) else n)"

definition activePieces :: "pid list \<Rightarrow> board \<Rightarrow> piece list" where
  "activePieces activePlayerIds b =
     map (\<lambda>(key, piece). piece\<lparr>piece_x := fst key, piece_y := snd key\<rparr>)
       (filter (\<lambda>(key, piece). case playerId piece of None \<Rightarrow> False
                                 | Some pl \<Rightarrow> pl \<in> set activePlayerIds) b)"

definition join_game ::
  "spiral \<Rightarrow> gameState \<Rightarrow> sid \<Rightarrow> string option \<Rightarrow> pid \<Rightarrow> nat \<Rightarrow> gameState \<times> (target \<times> event) list" where
  "join_game sp s sock playerName uuid now =
     (if length (players s) \<ge> MAX_PLAYERS then (s, [(ToSocket sock, GameFull)])
      else
        let playerColor = nextPlayerIndex s mod PLAYER_COLORS_length;
            pl = \<lparr> player_id = uuid, socketId = sock,
                   player_name = nameOrDefault playerName (length (players s)),
                   player_color = playerColor, colorIndex = nextPlayerIndex s,
                   isActive = True, joinedAt = now \<rparr>;
            players' = AList.update uuid pl (players s);
            board' = fst (spawnPlayerPieces sp (board s) uuid playerColor);
            s' = s\<lparr> players := players', board := board',
                    nextPlayerIndex := nextPlayerIndex s + 1,
                    socketPlayerId := (socketPlayerId s)(sock := Some uuid) \<rparr>
        in (s', [(ToSocket sock,
                   GameJoined uuid pl (activePieces (map fst players') board') (map snd players')),
                 (ToOthers sock, PlayerJoined pl)]))"

definition currentPlayer :: "gameState \<Rightarrow> sid \<Rightarrow> player option" where
  "currentPlayer s sock =
     (case socketPlayerId s sock of None \<Rightarrow> None | Some pl \<Rightarrow> map_of (players s) pl)"

definition move_piece :: "gameState \<Rightarrow> sid \<Rightarrow> moveData \<Rightarrow> gameState \<times> (target \<times> event) list" where
  "move_piece s sock m =
     (case currentPlayer s sock of
        None \<Rightarrow> (s, [])
      | Some pl \<Rightarrow>
         (case map_of (board s) (fromX m, fromY m) of
            None \<Rightarrow> (s, [(ToSocket sock, InvalidMove ''Not your piece'')])
          | Some piece \<Rightarrow>
              if playerId piece \<noteq> Some (player_id pl)
              then (s, [(ToSocket sock, InvalidMove ''Not your piece'')])
              else
                let piece' = piece\<lparr>piece_x := toX m, piece_y := toY m\<rparr>;
                    board' = AList.update (toX m, toY m) piece'
                               (AList.delete (fromX m, fromY m) (board s))
                in (s\<lparr>board := board'\<rparr>,
                    [(ToAll, PieceMoved (player_id pl) m piece')])))"

text \<open>The handler receives whatever the client sent. \<open>move_piece\<close> is the handler on a
  payload that has the four coordinates. On a missing payload (\<open>undefined\<close> or
  \<open>null\<close>) the destructuring \<open>const { fromX, fromY, toX, toY } = moveData\<close> throws,
  unless the guard \<open>if (!player) return\<close> before it has returned; nothing catches the
  exception.\<close>

definition on_move_piece ::
  "gameState \<Rightarrow> sid \<Rightarrow> moveData option \<Rightarrow> (gameState \<times> (target \<times> event) list) result" where
  "on_move_piece s sock payload =
     (case currentPlayer s sock of
        None \<Rightarrow> Value (s, [])
      | Some pl \<Rightarrow>
         (case payload of
            None \<Rightarrow> TypeError
          | Some m \<Rightarrow> Value (move_piece s sock m)))"

definition sectionCell :: "gameState \<Rightarrow> int \<Rightarrow> int \<Rightarrow> piece list" where
  "sectionCell s x y =
     (case map_of (board s) (x, y) of
        None \<Rightarrow> []
      | Some piece \<Rightarrow>
         (case playerId piece of
            None \<Rightarrow> []
          | Some pl \<Rightarrow> if pl \<in> set (map fst (players s))
                       then [piece\<lparr>piece_x := x, piece_y := y\<rparr>] else []))"

text \<open>The two nested \<open>for\<close> loops of \<open>get-board-section\<close>, inner loop first. A loop whose
  counter stops advancing below its bound never ends, which is the value \<open>None\<close>.\<close>

partial_function (option) sectionRow ::
  "gameState \<Rightarrow> int \<Rightarrow> int \<Rightarrow> int \<Rightarrow> piece list \<Rightarrow> piece list option" where
  "sectionRow s x y hi pieces =
     (if y \<le> hi then sectionRow s x (increment y) hi (pieces @ sectionCell s x y)
      else Some pieces)"

partial_function (option) sectionRows ::
  "gameState \<Rightarrow> bounds \<Rightarrow> int \<Rightarrow> piece list \<Rightarrow> piece list option" where
  "sectionRows s bnds x pieces =
     (if x \<le> maxX bnds
      then Option.bind (sectionRow s x (minY bnds) (maxY bnds) pieces)
             (\<lambda>pieces'. sectionRows s bnds (increment x) pieces')
      else Some pieces)"

definition sectionPieces :: "gameState \<Rightarrow> bounds \<Rightarrow> piece list option" where
  "sectionPieces s bnds = sectionRows s bnds (minX bnds) []"

definition get_board_section ::
  "gameState \<Rightarrow> sid \<Rightarrow> bounds \<Rightarrow> (gameState \<times> (target \<times> event) list) option" where
  "get_board_section s sock bnds =
     map_option (\<lambda>pieces. (s, [(ToSocket sock, BoardSection bnds pieces)]))
       (sectionPieces s bnds)"

text \<open>\<open>gameState.players.get(socket.playerId)\<close> is \<open>undefined\<close> when the socket never
  joined. The player object is marked inactive and then dropped from the registry.\<close>

definition disconnect :: "gameState \<Rightarrow> sid \<Rightarrow> gameState \<times> (target \<times> event) list" where
  "disconnect s sock =
     (case socketPlayerId s sock of
        None \<Rightarrow> (s, [])
      | Some plId \<Rightarrow>
         (case map_of (players s) plId of
            None \<Rightarrow> (s, [])
          | Some pl \<Rightarrow>
              (s\<lparr>players := AList.delete plId (players s)\<rparr>,
               [(ToOthers sock, PlayerLeft plId)])))"

text \<open>The commands a connection can send, with what the environment supplies to a
  join (the fresh uuid and the clock). \<open>handle\<close> gives the state a command leaves
  and what it emits. A section query never changes the state. One whose loop never
  ends answers nothing and keeps the server from taking any further command: the
  server then stays in the state it has, which is what \<open>handle\<close> gives for it.\<close>

datatype command =
    JoinGame sid "string option" pid nat
  | MovePiece sid moveData
  | GetBoardSection sid bounds
  | Disconnect sid

fun handle :: "spiral \<Rightarrow> gameState \<Rightarrow> command \<Rightarrow> gameState \<times> (target \<times> event) list" where
  "handle sp s (JoinGame sock playerName uuid now) = join_game sp s sock playerName uuid now"
| "handle sp s (MovePiece sock m) = move_piece s sock m"
| "handle sp s (GetBoardSection sock bnds) =
     (case get_board_section s sock bnds of None \<Rightarrow> (s, []) | Some r \<Rightarrow> r)"
| "handle sp s (Disconnect sock) = disconnect s sock"

fun run :: "spiral \<Rightarrow> gameState \<Rightarrow> command list \<Rightarrow> gameState" where
  "run sp s [] = s"
| "run sp s (c # cs) = run sp (fst (handle sp s c)) cs"

inductive reachable :: "spiral \<Rightarrow> gameState \<Rightarrow> bool" for sp :: spiral where
  reachable_init: "reachable sp initialState"
| reachable_step: "reachable sp s \<Longrightarrow> reachable sp (fst (handle sp s c))"

section \<open>The move validator (class ChessGame)\<close>

text \<open>
  The validator computes on doubles: \<open>dx = toX - fromX\<close> and \<open>dy\<close> are rounded
  differences, and \<open>validateLinearMove\<close> walks from the source by adding a unit step to
  the current cell, each sum rounded. Its \<open>while\<close> loop only stops on the destination
  or on an occupied cell; a walk that never meets either does not return, which is
  the value \<open>None\<close> of \<open>pathLoop\<close>. A board is keyed by integer coordinates, so a key
  built from an infinity or from \<open>NaN\<close> holds no piece. Reading
  \<open>movingPiece.playerId\<close> when the source cell is empty throws a \<open>TypeError\<close>.
\<close>

definition cell :: "board \<Rightarrow> jsnum \<Rightarrow> jsnum \<Rightarrow> piece option" where
  "cell boardState x y =
     (case x of
        Num a \<Rightarrow> (case y of Num b \<Rightarrow> map_of boardState (a, b) | _ \<Rightarrow> None)
      | _ \<Rightarrow> None)"

definition validatePawnMove :: "piece \<Rightarrow> jsnum \<Rightarrow> jsnum \<Rightarrow> board \<Rightarrow> int \<Rightarrow> int \<Rightarrow> bool" where
  "validatePawnMove piece dx dy boardState fX fY =
     (let adx = js_abs dx; ady = js_abs dy in
      if (strictEq adx (Num 1) \<and> strictEq ady (Num 0))
         \<or> (strictEq adx (Num 0) \<and> strictEq ady (Num 1)) then
        (case cell boardState (js_add (Num fX) dx) (js_add (Num fY) dy) of
           None \<Rightarrow> True
         | Some targetPiece \<Rightarrow> playerId targetPiece \<noteq> playerId piece)
      else False)"

definition validateKnightMove :: "jsnum \<Rightarrow> jsnum \<Rightarrow> bool" where
  "validateKnightMove adx ady =
     ((strictEq adx (Num 2) \<and> strictEq ady (Num 1))
      \<or> (strictEq adx (Num 1) \<and> strictEq ady (Num 2)))"

definition validateKingMove :: "jsnum \<Rightarrow> jsnum \<Rightarrow> bool" where
  "validateKingMove adx ady =
     (js_le adx (Num 1) \<and> js_le ady (Num 1) \<and> js_lt (Num 0) (js_add adx ady))"

partial_function (option) pathLoop ::
  "board \<Rightarrow> jsnum \<Rightarrow> jsnum \<Rightarrow> int \<Rightarrow> int \<Rightarrow> jsnum \<Rightarrow> jsnum \<Rightarrow> bool option" where
  "pathLoop boardState stepX stepY tX tY currentX currentY =
     (if \<not> strictEq currentX (Num tX) \<or> \<not> strictEq currentY (Num tY) then
        (if cell boardState currentX currentY \<noteq> None then Some False
         else pathLoop boardState stepX stepY tX tY
                (js_add currentX stepX) (js_add currentY stepY))
      else Some True)"

definition validateLinearMove ::
  "jsnum \<Rightarrow> jsnum \<Rightarrow> board \<Rightarrow> int \<Rightarrow> int \<Rightarrow> int \<Rightarrow> int \<Rightarrow> bool result option" where
  "validateLinearMove dx dy boardState fX fY tX tY =
     (let stepX = (if strictEq dx (Num 0) then Num 0 else unitStep dx);
          stepY = (if strictEq dy (Num 0) then Num 0 else unitStep dy)
      in case pathLoop boardState stepX stepY tX tY
                (js_add (Num fX) stepX) (js_add (Num fY) stepY) of
           None \<Rightarrow> None
         | Some False \<Rightarrow> Some (Value False)
         | Some True \<Rightarrow>
            (case map_of boardState (tX, tY) of
               None \<Rightarrow> Some (Value True)
             | Some targetPiece \<Rightarrow>
                (case map_of boardState (fX, fY) of
                   None \<Rightarrow> Some TypeError
                 | Some movingPiece \<Rightarrow>
                     Some (Value (playerId targetPiece \<noteq> playerId movingPiece)))))"

definition validateRookMove ::
  "jsnum \<Rightarrow> jsnum \<Rightarrow> board \<Rightarrow> int \<Rightarrow> int \<Rightarrow> int \<Rightarrow> int \<Rightarrow> bool result option" where
  "validateRookMove dx dy boardState fX fY tX tY =
     (if \<not> strictEq dx (Num 0) \<and> \<not> strictEq dy (Num 0) then Some (Value False)
      else validateLinearMove dx dy boardState fX fY tX tY)"

definition validateBishopMove ::
  "jsnum \<Rightarrow> jsnum \<Rightarrow> board \<Rightarrow> int \<Rightarrow> int \<Rightarrow> int \<Rightarrow> int \<Rightarrow> bool result option" where
  "validateBishopMove dx dy boardState fX fY tX tY =
     (if \<not> strictEq (js_abs dx) (js_abs dy) then Some (Value False)
      else validateLinearMove dx dy boardState fX fY tX tY)"

definition validateQueenMove ::
  "jsnum \<Rightarrow> jsnum \<Rightarrow> board \<Rightarrow> int \<Rightarrow> int \<Rightarrow> int \<Rightarrow> int \<Rightarrow> bool result option" where
  "validateQueenMove dx dy boardState fX fY tX tY =
     (let adx = js_abs dx; ady = js_abs dy in
      if \<not> strictEq dx (Num 0) \<and> \<not> strictEq dy (Num 0) \<and> \<not> strictEq adx ady
      then Some (Value False)
      else validateLinearMove dx dy boardState fX fY tX tY)"

definition validateMove ::
  "piece option \<Rightarrow> int \<Rightarrow> int \<Rightarrow> int \<Rightarrow> int \<Rightarrow> board \<Rightarrow> bool result option" where
  "validateMove piece fX fY tX tY boardState =
     (case piece of
        None \<Rightarrow> Some (Value False)
      | Some p \<Rightarrow>
         (let dx = js_sub tX fX; dy = js_sub tY fY; adx = js_abs dx; ady = js_abs dy in
          case piece_type p of
            Pawn \<Rightarrow> Some (Value (validatePawnMove p dx dy boardState fX fY))
          | Rook \<Rightarrow> validateRookMove dx dy boardState fX fY tX tY
          | Knight \<Rightarrow> Some (Value (validateKnightMove adx ady))
          | Bishop \<Rightarrow> validateBishopMove dx dy boardState fX fY tX tY
          | Queen \<Rightarrow> validateQueenMove dx dy boardState fX fY tX tY
          | King \<Rightarrow> Some (Value (validateKingMove adx ady))))"

text \<open>\<open>wouldExposeKing\<close> is a stub that answers \<open>false\<close>. \<open>isValidPosition\<close> is
  \<open>Number.isInteger(x) && Number.isInteger(y)\<close>, which holds of every pair of integers.
  The \<open>default\<close> branch of the \<open>switch\<close> in \<open>validateMove\<close> is for a type outside the six
  piece types, which \<open>piece_type\<close> excludes. The requester is the \<open>playerId\<close> field of
  the move passed to \<open>isMoveLegal\<close>.\<close>

definition wouldExposeKing :: "moveData \<Rightarrow> board \<Rightarrow> pid \<Rightarrow> bool" where
  "wouldExposeKing m boardState pl = False"

definition isValidPosition :: "int \<Rightarrow> int \<Rightarrow> bool" where
  "isValidPosition x y = True"

record verdict =
  valid :: bool
  reason :: "string option"

definition isMoveLegal :: "moveData \<Rightarrow> pid \<Rightarrow> gameState \<Rightarrow> verdict result option" where
  "isMoveLegal m requester gs =
     (case map_of (board gs) (fromX m, fromY m) of
        None \<Rightarrow> Some (Value \<lparr>valid = False, reason = Some ''No piece at source position''\<rparr>)
      | Some piece \<Rightarrow>
          if playerId piece \<noteq> Some requester
          then Some (Value \<lparr>valid = False, reason = Some ''Not your piece''\<rparr>)
          else if \<not> isValidPosition (toX m) (toY m)
          then Some (Value \<lparr>valid = False, reason = Some ''Invalid target position''\<rparr>)
          else
            (case validateMove (Some piece) (fromX m) (fromY m) (toX m) (toY m) (board gs) of
               None \<Rightarrow> None
             | Some TypeError \<Rightarrow> Some TypeError
             | Some (Value ok) \<Rightarrow>
                 if \<not> ok
                 then Some (Value \<lparr>valid = False, reason = Some ''Invalid move for this piece''\<rparr>)
                 else if wouldExposeKing m (board gs) requester
                 then Some (Value \<lparr>valid = False, reason = Some ''Move would expose king''\<rparr>)
                 else Some (Value \<lparr>valid = True, reason = None\<rparr>)))"

subsection \<open>The movement rules in the words of the specification\<close>

text \<open>Deltas are \<open>dx = to.x - from.x\<close>, \<open>dy = to.y - from.y\<close>; the cells strictly between
  source and destination are reached with the unit step \<open>(sign dx, sign dy)\<close>.\<close>

definition spec_pattern :: "piece_type \<Rightarrow> int \<Rightarrow> int \<Rightarrow> bool" where
  "spec_pattern t dx dy =
     (case t of
        Pawn \<Rightarrow> \<bar>dx\<bar> + \<bar>dy\<bar> = 1
      | Knight \<Rightarrow> (\<bar>dx\<bar>, \<bar>dy\<bar>) = (2, 1) \<or> (\<bar>dx\<bar>, \<bar>dy\<bar>) = (1, 2)
      | King \<Rightarrow> max \<bar>dx\<bar> \<bar>dy\<bar> = 1 \<and> (dx, dy) \<noteq> (0, 0)
      | Rook \<Rightarrow> (dx = 0) \<noteq> (dy = 0)
      | Bishop \<Rightarrow> \<bar>dx\<bar> = \<bar>dy\<bar> \<and> dx \<noteq> 0
      | Queen \<Rightarrow> ((dx = 0) \<noteq> (dy = 0)) \<or> (\<bar>dx\<bar> = \<bar>dy\<bar> \<and> dx \<noteq> 0))"

definition slides :: "piece_type \<Rightarrow> bool" where
  "slides t = (t = Rook \<or> t = Bishop \<or> t = Queen)"

definition spec_pathCells :: "int \<Rightarrow> int \<Rightarrow> int \<Rightarrow> int \<Rightarrow> coord list" where
  "spec_pathCells fX fY tX tY =
     map (\<lambda>k. (fX + int k * sgn (tX - fX), fY + int k * sgn (tY - fY)))
         [1 ..< nat (max \<bar>tX - fX\<bar> \<bar>tY - fY\<bar>)]"

definition spec_pathClear :: "board \<Rightarrow> int \<Rightarrow> int \<Rightarrow> int \<Rightarrow> int \<Rightarrow> bool" where
  "spec_pathClear b fX fY tX tY =
     list_all (\<lambda>c. map_of b c = None) (spec_pathCells fX fY tX tY)"

definition spec_captureOk :: "board \<Rightarrow> piece \<Rightarrow> int \<Rightarrow> int \<Rightarrow> bool" where
  "spec_captureOk b mover tX tY =
     (case map_of b (tX, tY) of
        None \<Rightarrow> True
      | Some occupant \<Rightarrow> playerId occupant \<noteq> playerId mover)"

definition aligned :: "int \<Rightarrow> int \<Rightarrow> bool" where
  "aligned dx dy = (dx = 0 \<or> dy = 0 \<or> \<bar>dx\<bar> = \<bar>dy\<bar>)"

text \<open>A move the validator computes without rounding: the four coordinates are safe
  integers and the two deltas are at most \<open>2^53\<close> in magnitude.\<close>

definition withinPrecision :: "int \<Rightarrow> int \<Rightarrow> int \<Rightarrow> int \<Rightarrow> bool" where
  "withinPrecision fX fY tX tY =
     (safeInteger fX \<and> safeInteger fY \<and> safeInteger tX \<and> safeInteger tY
      \<and> \<bar>tX - fX\<bar> \<le> 2 ^ 53 \<and> \<bar>tY - fY\<bar> \<le> 2 ^ 53)"

subsection \<open>Observations on a run of the server\<close>

text \<open>A move has been applied when the handler broadcasts \<open>piece-moved\<close>.\<close>

fun isPieceMoved :: "target \<times> event \<Rightarrow> bool" where
  "isPieceMoved (ToAll, PieceMoved pl m p) = True"
| "isPieceMoved _ = False"

definition moveApplied :: "gameState \<Rightarrow> sid \<Rightarrow> moveData \<Rightarrow> bool" where
  "moveApplied s sock m = list_ex isPieceMoved (snd (move_piece s sock m))"

fun isMove :: "command \<Rightarrow> bool" where
  "isMove (MovePiece sock m) = True"
| "isMove _ = False"

text \<open>The anchor of a join is the value \<open>findSpawnPosition(25)\<close> returns on the board
  as it is when the join is accepted; the fallback scan is taken when the board holds
  owned pieces and the spiral search runs out of attempts.\<close>

definition usedFallback :: "spiral \<Rightarrow> board \<Rightarrow> bool" where
  "usedFallback sp b =
     (existingPositions b \<noteq> [] \<and> spiralSearch sp (existingPositions b) 25 0 = None)"

fun joinAccepted :: "gameState \<Rightarrow> command \<Rightarrow> bool" where
  "joinAccepted s (JoinGame sock playerName uuid now) = (length (players s) < MAX_PLAYERS)"
| "joinAccepted s _ = False"

fun anchorsOf :: "spiral \<Rightarrow> gameState \<Rightarrow> command list \<Rightarrow> coord list" where
  "anchorsOf sp s [] = []"
| "anchorsOf sp s (c # cs) =
     (if joinAccepted s c then [findSpawnPosition sp (board s) 25] else [])
     @ anchorsOf sp (fst (handle sp s c)) cs"

fun noFallback :: "spiral \<Rightarrow> gameState \<Rightarrow> command list \<Rightarrow> bool" where
  "noFallback sp s [] = True"
| "noFallback sp s (c # cs) =
     ((joinAccepted s c \<longrightarrow> \<not> usedFallback sp (board s))
      \<and> noFallback sp (fst (handle sp s c)) cs)"

fun separated :: "int \<Rightarrow> coord list \<Rightarrow> bool" where
  "separated minDistance [] = True"
| "separated minDistance (a # as) =
     (list_all (\<lambda>b. distance a b \<ge> real_of_int minDistance) as \<and> separated minDistance as)"

text \<open>A board whose keys are pairwise distinct and whose pieces carry, in their
  \<open>x\<close> and \<open>y\<close> fields, the coordinate they are stored under.\<close>

definition keyed :: "board \<Rightarrow> bool" where
  "keyed b = (distinct (map fst b) \<and> list_all (\<lambda>(k, p). k = (piece_x p, piece_y p)) b)"

definition inBounds :: "bounds \<Rightarrow> coord \<Rightarrow> bool" where
  "inBounds bnds c =
     (minX bnds \<le> fst c \<and> fst c \<le> maxX bnds \<and> minY bnds \<le> snd c \<and> snd c \<le> maxY bnds)"

definition ownerActive :: "gameState \<Rightarrow> piece \<Rightarrow> bool" where
  "ownerActive s p =
     (case playerId p of None \<Rightarrow> False | Some pl \<Rightarrow> pl \<in> fst ` set (players s))"

subsection \<open>Concrete runs\<close>

text \<open>
  The first sixteen spiral candidates for \<open>minDistance = 25\<close>: radius 25 and the angles
  \<open>k * Math.PI / 8\<close>, that is \<open>Math.round(25 * Math.cos(angle))\<close> and
  \<open>Math.round(25 * Math.sin(angle))\<close> for \<open>k = 0, \<dots>, 15\<close>. The runs below stop within
  this first revolution; later candidates and the fallback ring are not consulted in
  them and are left at the origin and empty. (Where the product is a tiny negative
  number the source gets \<open>-0\<close>, which is the integer 0 and prints as \<open>0\<close> in a key.)
\<close>

definition firstRevolution :: "coord list" where
  "firstRevolution =
     [(25, 0), (23, 10), (18, 18), (10, 23), (0, 25), (-10, 23), (-18, 18), (-23, 10),
      (-25, 0), (-23, -10), (-18, -18), (-10, -23), (0, -25), (10, -23), (18, -18), (23, -10)]"

definition exampleSpiral :: spiral where
  "exampleSpiral =
     \<lparr> spiralAt = (\<lambda>k. if k < length firstRevolution then firstRevolution ! k else (0, 0)),
       fallbackRing = [] \<rparr>"

definition aliceJoins :: command where
  "aliceJoins = JoinGame 11 (Some ''Alice'') 7 0"

definition bobJoins :: command where
  "bobJoins = JoinGame 12 (Some ''Bob'') 8 5"

definition afterFirstJoin :: gameState where
  "afterFirstJoin = fst (handle exampleSpiral initialState aliceJoins)"

text \<open>The board the first join leaves behind.\<close>

definition aliceBoard :: board where
  "aliceBoard =
     [((-3, 0), mkPiece Rook (-3) 0 0 7), ((-2, 0), mkPiece Knight (-2) 0 0 7),
      ((-1, 0), mkPiece Bishop (-1) 0 0 7), ((0, 0), mkPiece Queen 0 0 0 7),
      ((1, 0), mkPiece King 1 0 0 7), ((2, 0), mkPiece Bishop 2 0 0 7),
      ((3, 0), mkPiece Knight 3 0 0 7), ((4, 0), mkPiece Rook 4 0 0 7),
      ((-3, 1), mkPiece Pawn (-3) 1 0 7), ((-2, 1), mkPiece Pawn (-2) 1 0 7),
      ((-1, 1), mkPiece Pawn (-1) 1 0 7), ((0, 1), mkPiece Pawn 0 1 0 7),
      ((1, 1), mkPiece Pawn 1 1 0 7), ((2, 1), mkPiece Pawn 2 1 0 7),
      ((3, 1), mkPiece Pawn 3 1 0 7), ((4, 1), mkPiece Pawn 4 1 0 7)]"

definition afterSecondJoin :: gameState where
  "afterSecondJoin = fst (handle exampleSpiral afterFirstJoin bobJoins)"

text \<open>A registry at capacity.\<close>

definition fullState :: gameState where
  "fullState =
     \<lparr> players = map (\<lambda>i. (i, \<lparr> player_id = i, socketId = i, player_name = ''P'',
                                   player_color = i, colorIndex = i, isActive = True,
                                   joinedAt = 0 \<rparr>)) [0 ..< 100],
       board = [], nextPlayerIndex = 100, socketPlayerId = (\<lambda>_. None) \<rparr>"

text \<open>A longer run: after the second join, the second player moves all sixteen pieces
  a hundred cells away, one command each, and a third player joins. \<open>moveOn\<close> is the
  effect on the board of a move sent by a registered player with the given id.\<close>

definition moveOn :: "pid \<Rightarrow> board \<Rightarrow> moveData \<Rightarrow> board" where
  "moveOn plId b m =
     (case map_of b (fromX m, fromY m) of
        None \<Rightarrow> b
      | Some p \<Rightarrow>
          if playerId p \<noteq> Some plId then b
          else AList.update (toX m, toY m) (p\<lparr>piece_x := toX m, piece_y := toY m\<rparr>)
                 (AList.delete (fromX m, fromY m) b))"

definition bobBoard :: board where
  "bobBoard =
     [((-3, -25), mkPiece Rook (-3) (-25) 1 8), ((-2, -25), mkPiece Knight (-2) (-25) 1 8),
      ((-1, -25), mkPiece Bishop (-1) (-25) 1 8), ((0, -25), mkPiece Queen 0 (-25) 1 8),
      ((1, -25), mkPiece King 1 (-25) 1 8), ((2, -25), mkPiece Bishop 2 (-25) 1 8),
      ((3, -25), mkPiece Knight 3 (-25) 1 8), ((4, -25), mkPiece Rook 4 (-25) 1 8),
      ((-3, -24), mkPiece Pawn (-3) (-24) 1 8), ((-2, -24), mkPiece Pawn (-2) (-24) 1 8),
      ((-1, -24), mkPiece Pawn (-1) (-24) 1 8), ((0, -24), mkPiece Pawn 0 (-24) 1 8),
      ((1, -24), mkPiece Pawn 1 (-24) 1 8), ((2, -24), mkPiece Pawn 2 (-24) 1 8),
      ((3, -24), mkPiece Pawn 3 (-24) 1 8), ((4, -24), mkPiece Pawn 4 (-24) 1 8)]"

definition bobAwayBoard :: board where
  "bobAwayBoard =
     [((97, 75), mkPiece Rook 97 75 1 8), ((98, 75), mkPiece Knight 98 75 1 8),
      ((99, 75), mkPiece Bishop 99 75 1 8), ((100, 75), mkPiece Queen 100 75 1 8),
      ((101, 75), mkPiece King 101 75 1 8), ((102, 75), mkPiece Bishop 102 75 1 8),
      ((103, 75), mkPiece Knight 103 75 1 8), ((104, 75), mkPiece Rook 104 75 1 8),
      ((97, 76), mkPiece Pawn 97 76 1 8), ((98, 76), mkPiece Pawn 98 76 1 8),
      ((99, 76), mkPiece Pawn 99 76 1 8), ((100, 76), mkPiece Pawn 100 76 1 8),
      ((101, 76), mkPiece Pawn 101 76 1 8), ((102, 76), mkPiece Pawn 102 76 1 8),
      ((103, 76), mkPiece Pawn 103 76 1 8), ((104, 76), mkPiece Pawn 104 76 1 8)]"

definition bobMoves :: "moveData list" where
  "bobMoves =
     map (\<lambda>x. \<lparr>fromX = x, fromY = -25, toX = x + 100, toY = 75\<rparr>) [-3, -2, -1, 0, 1, 2, 3, 4]
     @ map (\<lambda>x. \<lparr>fromX = x, fromY = -24, toX = x + 100, toY = 76\<rparr>) [-3, -2, -1, 0, 1, 2, 3, 4]"

definition bobEvacuates :: "command list" where
  "bobEvacuates = map (MovePiece 12) bobMoves"

definition carolJoins :: command where
  "carolJoins = JoinGame 13 (Some ''Carol'') 9 9"

definition afterEvacuation :: gameState where
  "afterEvacuation = run exampleSpiral afterSecondJoin bobEvacuates"

text \<open>A board far from the origin, where neighbouring doubles are two apart: a bishop on
  \<open>(2^53, 0)\<close> and a pawn on \<open>(2^53 + 2, 2)\<close>.\<close>

definition farBoard :: board where
  "farBoard =
     [((9007199254740992, 0), mkPiece Bishop 9007199254740992 0 0 7),
      ((9007199254740994, 2), mkPiece Pawn 9007199254740994 2 0 7)]"

text \<open>The first player's socket sends \<open>join-game\<close> a second time, and disconnects.\<close>

definition aliceRejoins :: command where
  "aliceRejoins = JoinGame 11 (Some ''Alice'') 9 1"

definition afterRejoin :: gameState where
  "afterRejoin = fst (handle exampleSpiral afterFirstJoin aliceRejoins)"

definition afterRejoinLeft :: gameState where
  "afterRejoinLeft = fst (handle exampleSpiral afterRejoin (Disconnect 11))"

section \<open>Properties of the number operations\<close>

lemma spacing_small: "n < 2 ^ 53 \<Longrightarrow> spacing n = 1"
  by (subst spacing.simps) simp

lemma spacing_at_limit: "spacing (2 ^ 53) = 2"
  by (subst spacing.simps) (simp add: spacing_small)

lemma spacing_above_limit: "spacing (2 ^ 53 + 1) = 2"
  by (subst spacing.simps) (simp add: spacing_small)

lemma roundToDouble_exact:
  assumes "\<bar>v\<bar> \<le> 2 ^ 53"
  shows "roundToDouble v = v"
proof (cases "\<bar>v\<bar> < 2 ^ 53")
  case True
  then have "nat \<bar>v\<bar> < 2 ^ 53" by simp
  then have "spacing (nat \<bar>v\<bar>) = 1" by (rule spacing_small)
  then show ?thesis by (simp add: roundToDouble_def)
next
  case False
  with assms have v: "\<bar>v\<bar> = 2 ^ 53" by simp
  then have "nat \<bar>v\<bar> = 2 ^ 53" by simp
  then have q: "spacing (nat \<bar>v\<bar>) = 2" by (simp only: spacing_at_limit)
  have "v = 2 ^ 53 \<or> v = - (2 ^ 53)" using v by linarith
  then have "even v" by auto
  then have "(v div 2) * 2 = v" by simp
  then show ?thesis by (simp add: roundToDouble_def q Let_def)
qed

lemma fromExact_exact:
  assumes "\<bar>v\<bar> \<le> 2 ^ 53"
  shows "fromExact v = Num v"
proof -
  have "(2::int) ^ 53 < 2 ^ 1024" by simp
  with assms have "\<not> 2 ^ 1024 \<le> v" "\<not> v \<le> - (2 ^ 1024)" by linarith+
  then show ?thesis
    unfolding fromExact_def roundToDouble_exact[OF assms] Let_def by (simp only: if_False)
qed

lemma round_above_limit: "roundToDouble (2 ^ 53 + 1) = 2 ^ 53"
proof -
  have "nat \<bar>2 ^ 53 + 1 :: int\<bar> = 2 ^ 53 + 1" by simp
  then have "spacing (nat \<bar>2 ^ 53 + 1 :: int\<bar>) = 2" by (simp only: spacing_above_limit)
  then show ?thesis unfolding roundToDouble_def Let_def by simp
qed

lemma increment_exact: "- (2 ^ 53) \<le> x \<Longrightarrow> x < 2 ^ 53 \<Longrightarrow> increment x = x + 1"
  by (simp add: increment_def roundToDouble_exact)

lemma increment_stuck: "increment (2 ^ 53) = 2 ^ 53"
  unfolding increment_def by (rule round_above_limit)

lemma increment_stuck_numeral: "increment 9007199254740992 = 9007199254740992"
  using increment_stuck by simp

lemma strictEq_Num [simp]: "strictEq (Num a) (Num b) = (a = b)"
  by (simp add: strictEq_def)

lemma js_sub_exact: "\<bar>a - b\<bar> \<le> 2 ^ 53 \<Longrightarrow> js_sub a b = Num (a - b)"
  by (simp add: js_sub_def fromExact_exact)

lemma js_add_exact: "\<bar>a + b\<bar> \<le> 2 ^ 53 \<Longrightarrow> js_add (Num a) (Num b) = Num (a + b)"
  by (simp add: fromExact_exact)

lemma fromExact_above_limit: "fromExact (2 ^ 53 + 1) = Num (2 ^ 53)"
proof -
  have "\<not> (2::int) ^ 1024 \<le> 2 ^ 53" "\<not> (2::int) ^ 53 \<le> - (2 ^ 1024)" by simp_all
  then show ?thesis
    unfolding fromExact_def round_above_limit Let_def by (simp only: if_False)
qed

section \<open>Properties of the validator\<close>

lemma cell_Num [simp]: "cell b (Num x) (Num y) = map_of b (x, y)"
  by (simp add: cell_def)

lemma pathLoop_line:
  assumes "(sx, sy) \<noteq> (0, 0)" and "j \<le> n"
      and "\<forall>k \<le> n. \<bar>x0 + int k * sx\<bar> \<le> 2 ^ 53 \<and> \<bar>y0 + int k * sy\<bar> \<le> 2 ^ 53"
  shows "pathLoop b (Num sx) (Num sy) (x0 + int n * sx) (y0 + int n * sy)
           (Num (x0 + int j * sx)) (Num (y0 + int j * sy))
         = Some (\<forall>k. j \<le> k \<and> k < n \<longrightarrow> map_of b (x0 + int k * sx, y0 + int k * sy) = None)"
  using assms(1,2)
proof (induction "n - j" arbitrary: j)
  case 0
  then have "j = n" by simp
  then show ?case by (subst pathLoop.simps) auto
next
  case (Suc d)
  then have jn: "j < n" by simp
  have ne: "x0 + int j * sx \<noteq> x0 + int n * sx \<or> y0 + int j * sy \<noteq> y0 + int n * sy"
    using jn Suc.prems(1) by auto
  have step: "x0 + int j * sx + sx = x0 + int (Suc j) * sx" "y0 + int j * sy + sy = y0 + int (Suc j) * sy"
    by (simp_all add: algebra_simps)
  have inr: "\<bar>x0 + int (Suc j) * sx\<bar> \<le> 2 ^ 53" "\<bar>y0 + int (Suc j) * sy\<bar> \<le> 2 ^ 53"
    using assms(3) jn by (metis Suc_leI)+
  have adv: "js_add (Num (x0 + int j * sx)) (Num sx) = Num (x0 + int (Suc j) * sx)"
            "js_add (Num (y0 + int j * sy)) (Num sy) = Num (y0 + int (Suc j) * sy)"
    using inr by (simp_all only: js_add.simps step fromExact_exact)
  show ?case
  proof (cases "map_of b (x0 + int j * sx, y0 + int j * sy) = None")
    case False
    then show ?thesis using ne jn by (subst pathLoop.simps) auto
  next
    case True
    have ih: "pathLoop b (Num sx) (Num sy) (x0 + int n * sx) (y0 + int n * sy)
                (Num (x0 + int (Suc j) * sx)) (Num (y0 + int (Suc j) * sy))
         = Some (\<forall>k. Suc j \<le> k \<and> k < n \<longrightarrow> map_of b (x0 + int k * sx, y0 + int k * sy) = None)"
      using Suc.hyps(1)[of "Suc j"] Suc.hyps(2) Suc.prems jn by simp
    have "(\<forall>k. Suc j \<le> k \<and> k < n \<longrightarrow> map_of b (x0 + int k * sx, y0 + int k * sy) = None)
        = (\<forall>k. j \<le> k \<and> k < n \<longrightarrow> map_of b (x0 + int k * sx, y0 + int k * sy) = None)"
      using True by (metis Suc_leI le_neq_implies_less Suc_leD)
    then have ih': "pathLoop b (Num sx) (Num sy) (x0 + int n * sx) (y0 + int n * sy)
                (js_add (Num (x0 + int j * sx)) (Num sx)) (js_add (Num (y0 + int j * sy)) (Num sy))
         = Some (\<forall>k. j \<le> k \<and> k < n \<longrightarrow> map_of b (x0 + int k * sx, y0 + int k * sy) = None)"
      using ih by (simp only: adv)
    show ?thesis
      by (subst pathLoop.simps)
         (simp only: strictEq_Num cell_Num ne True ih' if_True if_False simp_thms)
  qed
qed

lemma spec_pathClear_iff:
  "spec_pathClear b fX fY tX tY =
     (\<forall>k. 1 \<le> k \<and> k < nat (max \<bar>tX - fX\<bar> \<bar>tY - fY\<bar>) \<longrightarrow>
          map_of b (fX + int k * sgn (tX - fX), fY + int k * sgn (tY - fY)) = None)"
  by (auto simp: spec_pathClear_def spec_pathCells_def list_all_iff)

lemma between_in_range:
  fixes f t :: int
  assumes "\<bar>f\<bar> \<le> B" "\<bar>t\<bar> \<le> B" "t - f \<noteq> 0 \<longrightarrow> int k \<le> \<bar>t - f\<bar>"
  shows "\<bar>f + int k * sgn (t - f)\<bar> \<le> B"
proof (cases "t - f = 0")
  case True
  then show ?thesis using assms(1) by simp
next
  case False
  then have k: "int k \<le> \<bar>t - f\<bar>" using assms(3) by simp
  show ?thesis
  proof (cases "t - f < 0")
    case True
    then have "sgn (t - f) = -1" by simp
    then show ?thesis using True k assms(1,2) by simp
  next
    case pos: False
    with False have "sgn (t - f) = 1" by simp
    then show ?thesis using pos k assms(1,2) by simp
  qed
qed

lemma pathLoop_aligned:
  assumes al: "aligned (tX - fX) (tY - fY)" and wp: "withinPrecision fX fY tX tY"
  shows "pathLoop b (Num (sgn (tX - fX))) (Num (sgn (tY - fY))) tX tY
           (js_add (Num fX) (Num (sgn (tX - fX)))) (js_add (Num fY) (Num (sgn (tY - fY))))
         = Some (spec_pathClear b fX fY tX tY)"
proof (cases "tX - fX = 0 \<and> tY - fY = 0")
  case True
  then have e: "tX = fX" "tY = fY" by simp_all
  have "\<bar>fX\<bar> \<le> 2 ^ 53" "\<bar>fY\<bar> \<le> 2 ^ 53"
    using wp by (simp_all add: withinPrecision_def safeInteger_def)
  then have "js_add (Num fX) (Num 0) = Num fX" "js_add (Num fY) (Num 0) = Num fY"
    by (simp_all only: js_add.simps add_0_right fromExact_exact)
  then show ?thesis using e
    by (subst pathLoop.simps) (simp add: spec_pathClear_def spec_pathCells_def)
next
  case False
  define dx where "dx = tX - fX"
  define dy where "dy = tY - fY"
  define n where "n = nat (max \<bar>dx\<bar> \<bar>dy\<bar>)"
  have nz: "(sgn dx, sgn dy) \<noteq> (0, 0)" using False by (auto simp: dx_def dy_def sgn_if)
  have n1: "1 \<le> n" using False by (auto simp: n_def dx_def dy_def)
  have mx: "dx \<noteq> 0 \<Longrightarrow> max \<bar>dx\<bar> \<bar>dy\<bar> = \<bar>dx\<bar>" "dy \<noteq> 0 \<Longrightarrow> max \<bar>dx\<bar> \<bar>dy\<bar> = \<bar>dy\<bar>"
    using al unfolding aligned_def dx_def[symmetric] dy_def[symmetric] by auto
  have ex: "int n * sgn dx = dx"
    by (cases "dx = 0") (simp_all add: n_def mx abs_mult_sgn)
  have ey: "int n * sgn dy = dy"
    by (cases "dy = 0") (simp_all add: n_def mx abs_mult_sgn)
  have t: "tX = fX + int n * sgn dx" "tY = fY + int n * sgn dy"
    using ex ey by (simp_all add: dx_def dy_def)
  have safe: "\<bar>fX\<bar> \<le> 2 ^ 53" "\<bar>fY\<bar> \<le> 2 ^ 53" "\<bar>tX\<bar> \<le> 2 ^ 53" "\<bar>tY\<bar> \<le> 2 ^ 53"
    using wp by (simp_all add: withinPrecision_def safeInteger_def)
  have rng: "\<forall>k \<le> n. \<bar>fX + int k * sgn dx\<bar> \<le> 2 ^ 53 \<and> \<bar>fY + int k * sgn dy\<bar> \<le> 2 ^ 53"
  proof (intro allI impI conjI)
    fix k assume k: "k \<le> n"
    have kx: "tX - fX \<noteq> 0 \<longrightarrow> int k \<le> \<bar>tX - fX\<bar>"
    proof
      assume "tX - fX \<noteq> 0"
      then have "dx \<noteq> 0" by (simp add: dx_def)
      then have "n = nat \<bar>dx\<bar>" using mx(1) by (simp add: n_def)
      then show "int k \<le> \<bar>tX - fX\<bar>" using k by (simp add: dx_def)
    qed
    have ky: "tY - fY \<noteq> 0 \<longrightarrow> int k \<le> \<bar>tY - fY\<bar>"
    proof
      assume "tY - fY \<noteq> 0"
      then have "dy \<noteq> 0" by (simp add: dy_def)
      then have "n = nat \<bar>dy\<bar>" using mx(2) by (simp add: n_def)
      then show "int k \<le> \<bar>tY - fY\<bar>" using k by (simp add: dy_def)
    qed
    show "\<bar>fX + int k * sgn dx\<bar> \<le> 2 ^ 53"
      unfolding dx_def by (rule between_in_range[OF safe(1) safe(3) kx])
    show "\<bar>fY + int k * sgn dy\<bar> \<le> 2 ^ 53"
      unfolding dy_def by (rule between_in_range[OF safe(2) safe(4) ky])
  qed
  have first: "js_add (Num fX) (Num (sgn dx)) = Num (fX + int 1 * sgn dx)"
              "js_add (Num fY) (Num (sgn dy)) = Num (fY + int 1 * sgn dy)"
  proof -
    have r1: "\<bar>fX + int 1 * sgn dx\<bar> \<le> 2 ^ 53" "\<bar>fY + int 1 * sgn dy\<bar> \<le> 2 ^ 53"
      using rng n1 by blast+
    have e1: "fX + sgn dx = fX + int 1 * sgn dx" "fY + sgn dy = fY + int 1 * sgn dy"
      by simp_all
    show "js_add (Num fX) (Num (sgn dx)) = Num (fX + int 1 * sgn dx)"
      unfolding js_add.simps e1 by (rule fromExact_exact[OF r1(1)])
    show "js_add (Num fY) (Num (sgn dy)) = Num (fY + int 1 * sgn dy)"
      unfolding js_add.simps e1 by (rule fromExact_exact[OF r1(2)])
  qed
  have "pathLoop b (Num (sgn dx)) (Num (sgn dy)) (fX + int n * sgn dx) (fY + int n * sgn dy)
          (Num (fX + int 1 * sgn dx)) (Num (fY + int 1 * sgn dy))
        = Some (\<forall>k. 1 \<le> k \<and> k < n \<longrightarrow> map_of b (fX + int k * sgn dx, fY + int k * sgn dy) = None)"
    by (rule pathLoop_line[OF nz n1 rng])
  then have "pathLoop b (Num (sgn dx)) (Num (sgn dy)) tX tY
          (js_add (Num fX) (Num (sgn dx))) (js_add (Num fY) (Num (sgn dy)))
        = Some (\<forall>k. 1 \<le> k \<and> k < n \<longrightarrow> map_of b (fX + int k * sgn dx, fY + int k * sgn dy) = None)"
    by (simp only: t[symmetric] first)
  then show ?thesis
    by (simp only: spec_pathClear_iff n_def dx_def dy_def)
qed

lemma validateLinearMove_aligned:
  assumes "aligned (tX - fX) (tY - fY)" "withinPrecision fX fY tX tY"
      and "map_of b (fX, fY) = Some p"
  shows "validateLinearMove (Num (tX - fX)) (Num (tY - fY)) b fX fY tX tY
         = Some (Value (spec_pathClear b fX fY tX tY \<and> spec_captureOk b p tX tY))"
proof -
  have s: "(if strictEq (Num (tX - fX)) (Num 0) then Num 0 else unitStep (Num (tX - fX)))
             = Num (sgn (tX - fX))"
          "(if strictEq (Num (tY - fY)) (Num 0) then Num 0 else unitStep (Num (tY - fY)))
             = Num (sgn (tY - fY))"
    by simp_all
  show ?thesis
    unfolding validateLinearMove_def s Let_def pathLoop_aligned[OF assms(1,2)]
    using assms(3) by (simp add: spec_captureOk_def split: option.splits bool.splits)
qed

lemma deltas_exact:
  assumes "withinPrecision fX fY tX tY"
  shows "js_sub tX fX = Num (tX - fX)" "js_sub tY fY = Num (tY - fY)"
  using assms by (simp_all add: withinPrecision_def js_sub_exact)

lemma validateMove_on_board:
  assumes "map_of b (fX, fY) = Some p" and wp: "withinPrecision fX fY tX tY"
  shows "validateMove (Some p) fX fY tX tY b =
         Some (Value (spec_pattern (piece_type p) (tX - fX) (tY - fY)
                      \<and> (slides (piece_type p) \<longrightarrow> spec_pathClear b fX fY tX tY)
                      \<and> (piece_type p \<noteq> Knight \<and> piece_type p \<noteq> King \<longrightarrow> spec_captureOk b p tX tY)))"
proof -
  have self: "tX - fX = 0 \<Longrightarrow> tY - fY = 0 \<Longrightarrow> \<not> spec_captureOk b p tX tY"
    using assms(1) by (simp add: spec_captureOk_def)
  note lin = validateLinearMove_aligned[OF _ wp assms(1)]
  note d = deltas_exact[OF wp]
  have tsafe: "\<bar>tX\<bar> \<le> 2 ^ 53" "\<bar>tY\<bar> \<le> 2 ^ 53"
    using wp by (simp_all add: withinPrecision_def safeInteger_def)
  show ?thesis
  proof (cases "piece_type p")
    case Pawn
    have "js_add (Num fX) (Num (tX - fX)) = Num tX" "js_add (Num fY) (Num (tY - fY)) = Num tY"
      using tsafe by (simp_all add: fromExact_exact)
    then show ?thesis using Pawn
      by (auto simp: validateMove_def validatePawnMove_def spec_pattern_def slides_def
            spec_captureOk_def Let_def d split: option.splits)
  next
    case Knight
    then show ?thesis
      by (auto simp: validateMove_def validateKnightMove_def spec_pattern_def slides_def Let_def d)
  next
    case King
    show ?thesis
    proof (cases "\<bar>tX - fX\<bar> \<le> 1 \<and> \<bar>tY - fY\<bar> \<le> 1")
      case True
      then have "\<bar>\<bar>tX - fX\<bar> + \<bar>tY - fY\<bar>\<bar> \<le> 2 ^ 53" by simp
      then have "js_add (Num \<bar>tX - fX\<bar>) (Num \<bar>tY - fY\<bar>) = Num (\<bar>tX - fX\<bar> + \<bar>tY - fY\<bar>)"
        by (rule js_add_exact)
      then show ?thesis using King True
        by (auto simp: validateMove_def validateKingMove_def spec_pattern_def slides_def Let_def d
              js_lt_def)
    next
      case False
      then show ?thesis using King
        by (auto simp: validateMove_def validateKingMove_def spec_pattern_def slides_def Let_def d)
    qed
  next
    case Rook
    show ?thesis
    proof (cases "tX - fX \<noteq> 0 \<and> tY - fY \<noteq> 0")
      case True
      then show ?thesis using Rook
        by (auto simp: validateMove_def validateRookMove_def spec_pattern_def Let_def d)
    next
      case False
      then have "aligned (tX - fX) (tY - fY)" by (auto simp: aligned_def)
      from lin[OF this] False self show ?thesis using Rook
        by (auto simp: validateMove_def validateRookMove_def spec_pattern_def slides_def Let_def d)
    qed
  next
    case Bishop
    show ?thesis
    proof (cases "\<bar>tX - fX\<bar> \<noteq> \<bar>tY - fY\<bar>")
      case True
      then show ?thesis using Bishop
        by (auto simp: validateMove_def validateBishopMove_def spec_pattern_def Let_def d)
    next
      case False
      then have "aligned (tX - fX) (tY - fY)" by (auto simp: aligned_def)
      from lin[OF this] False self show ?thesis using Bishop
        by (auto simp: validateMove_def validateBishopMove_def spec_pattern_def slides_def Let_def d)
    qed
  next
    case Queen
    show ?thesis
    proof (cases "tX - fX \<noteq> 0 \<and> tY - fY \<noteq> 0 \<and> \<bar>tX - fX\<bar> \<noteq> \<bar>tY - fY\<bar>")
      case True
      then show ?thesis using Queen
        by (auto simp: validateMove_def validateQueenMove_def spec_pattern_def Let_def d)
    next
      case False
      then have "aligned (tX - fX) (tY - fY)" by (auto simp: aligned_def)
      from lin[OF this] False self show ?thesis using Queen
        by (auto simp: validateMove_def validateQueenMove_def spec_pattern_def slides_def Let_def d)
    qed
  qed
qed


text \<open>At \<open>2^53\<close> a unit step no longer advances: a diagonal walk that starts on the
  column \<open>2^53\<close> stays on that column, and its row stops at \<open>2^53\<close> as well.\<close>

lemma unit_step_stuck: "js_add (Num 9007199254740992) (Num 1) = Num 9007199254740992"
  using fromExact_above_limit by simp

lemma pathLoop_stuck:
  assumes "pathLoop b (Num 1) (Num 1) tX tY (Num 9007199254740992) (Num y) = Some r"
      and "tX \<noteq> 9007199254740992" "1 \<le> y" "y \<le> 9007199254740992"
      and "\<forall>y'. 1 \<le> y' \<longrightarrow> map_of b (9007199254740992, y') = None"
  shows False
proof -
  let ?P = "\<lambda>b sx sy tX (tY::int) cx cy (r::bool).
              \<not> (sx = Num 1 \<and> sy = Num 1 \<and> cx = Num 9007199254740992 \<and> tX \<noteq> 9007199254740992
                 \<and> (\<exists>y. cy = Num y \<and> 1 \<le> y \<and> y \<le> 9007199254740992)
                 \<and> (\<forall>y'. 1 \<le> y' \<longrightarrow> map_of b (9007199254740992, y') = None))"
  have "?P b (Num 1) (Num 1) tX tY (Num 9007199254740992) (Num y) r"
  proof (rule pathLoop.raw_induct[where P = ?P, OF _ assms(1)])
    fix loop b sx sy and tX tY :: int and cx cy and r :: bool
    assume ih: "\<And>b sx sy tX tY cx cy r. loop b sx sy tX tY cx cy = Some r \<Longrightarrow> ?P b sx sy tX tY cx cy r"
      and run: "(if \<not> strictEq cx (Num tX) \<or> \<not> strictEq cy (Num tY)
                 then if cell b cx cy \<noteq> None then Some False
                      else loop b sx sy tX tY (js_add cx sx) (js_add cy sy)
                 else Some True) = Some r"
    show "?P b sx sy tX tY cx cy r"
    proof
      assume a: "sx = Num 1 \<and> sy = Num 1 \<and> cx = Num 9007199254740992 \<and> tX \<noteq> 9007199254740992
                 \<and> (\<exists>y. cy = Num y \<and> 1 \<le> y \<and> y \<le> 9007199254740992)
                 \<and> (\<forall>y'. 1 \<le> y' \<longrightarrow> map_of b (9007199254740992, y') = None)"
      then obtain y where y: "cy = Num y" "1 \<le> y" "y \<le> 9007199254740992" by blast
      have empty: "map_of b (9007199254740992, y) = None" using a y(2) by blast
      have cont: "loop b (Num 1) (Num 1) tX tY (js_add (Num 9007199254740992) (Num 1))
                    (js_add (Num y) (Num 1)) = Some r"
        using run a y(1) empty by simp
      obtain y' where y': "js_add (Num y) (Num 1) = Num y'" "1 \<le> y'" "y' \<le> 9007199254740992"
      proof (cases "y = 9007199254740992")
        case True
        then show ?thesis using that[of 9007199254740992] unit_step_stuck by simp
      next
        case False
        then have "\<bar>y + 1\<bar> \<le> 2 ^ 53" using y(2,3) by simp
        then have "js_add (Num y) (Num 1) = Num (y + 1)" by (rule js_add_exact)
        then show ?thesis using that[of "y + 1"] y(2,3) False by simp
      qed
      have "loop b (Num 1) (Num 1) tX tY (Num 9007199254740992) (Num y') = Some r"
        using cont by (simp only: unit_step_stuck y'(1))
      from ih[OF this] a y'(2,3) show False by blast
    qed
  qed
  then show False using assms(2-5) by blast
qed

lemma isMoveLegal_on_board:
  assumes "map_of (board s) (fromX m, fromY m) = Some p" "playerId p = Some r"
      and "withinPrecision (fromX m) (fromY m) (toX m) (toY m)"
  shows "isMoveLegal m r s =
         Some (Value (if spec_pattern (piece_type p) (toX m - fromX m) (toY m - fromY m)
                      \<and> (slides (piece_type p) \<longrightarrow>
                            spec_pathClear (board s) (fromX m) (fromY m) (toX m) (toY m))
                      \<and> (piece_type p \<noteq> Knight \<and> piece_type p \<noteq> King \<longrightarrow>
                            spec_captureOk (board s) p (toX m) (toY m))
                      then \<lparr>valid = True, reason = None\<rparr>
                      else \<lparr>valid = False, reason = Some ''Invalid move for this piece''\<rparr>))"
  using assms(1,2)
  by (simp add: isMoveLegal_def validateMove_on_board[OF assms(1,3)] isValidPosition_def
      wouldExposeKing_def)

section \<open>Properties of the server handlers\<close>

subsection \<open>Evaluation of the concrete runs\<close>

lemma mkPiece_sel [simp]:
  "piece_type (mkPiece t x y c pl) = t" "piece_x (mkPiece t x y c pl) = x"
  "piece_y (mkPiece t x y c pl) = y" "piece_color (mkPiece t x y c pl) = c"
  "playerId (mkPiece t x y c pl) = Some pl"
  by (simp_all add: mkPiece_def)

lemma afterFirstJoin_board: "board afterFirstJoin = aliceBoard"
  by (simp add: afterFirstJoin_def aliceJoins_def join_game_def initialState_def MAX_PLAYERS_def
      spawnPlayerPieces_def findSpawnPosition_def existingPositions_def startingPieces_def
      PLAYER_COLORS_length_def Let_def aliceBoard_def)

lemma afterFirstJoin_players:
  "players afterFirstJoin =
     [(7, \<lparr> player_id = 7, socketId = 11, player_name = ''Alice'', player_color = 0,
            colorIndex = 0, isActive = True, joinedAt = 0 \<rparr>)]"
  by (simp add: afterFirstJoin_def aliceJoins_def join_game_def initialState_def MAX_PLAYERS_def
      PLAYER_COLORS_length_def Let_def nameOrDefault_def)

lemma afterFirstJoin_socket: "socketPlayerId afterFirstJoin = (\<lambda>_. None)(11 := Some 7)"
  by (simp add: afterFirstJoin_def aliceJoins_def join_game_def initialState_def MAX_PLAYERS_def
      Let_def)

lemma distance_ge_iff:
  assumes "0 \<le> d"
  shows "(real_of_int d \<le> distance c pos) = (d\<^sup>2 \<le> (fst c - fst pos)\<^sup>2 + (snd c - snd pos)\<^sup>2)"
proof -
  have d: "real_of_int d = sqrt ((real_of_int d)\<^sup>2)"
    using assms by simp
  have "(real_of_int d \<le> distance c pos)
        = ((real_of_int d)\<^sup>2 \<le> real_of_int ((fst c - fst pos)\<^sup>2 + (snd c - snd pos)\<^sup>2))"
    unfolding distance_def by (subst d) (simp only: real_sqrt_le_iff)
  also have "\<dots> = (d\<^sup>2 \<le> (fst c - fst pos)\<^sup>2 + (snd c - snd pos)\<^sup>2)"
    by (metis of_int_le_iff of_int_power)
  finally show ?thesis .
qed

subsection \<open>Association lists as JavaScript maps\<close>

lemma length_update_fresh:
  "k \<notin> fst ` set al \<Longrightarrow> length (AList.update k v al) = Suc (length al)"
  by (induction al) auto

lemma length_update_present:
  "k \<in> fst ` set al \<Longrightarrow> length (AList.update k v al) = length al"
  by (induction al) auto

lemma length_delete_present:
  "distinct (map fst al) \<Longrightarrow> k \<in> fst ` set al \<Longrightarrow> Suc (length (AList.delete k al)) = length al"
  by (induction al) (auto simp: rev_image_eqI)

lemma map_of_None_iff_keys: "(map_of al k = None) = (k \<notin> fst ` set al)"
  by (simp add: map_of_eq_None_iff)

subsection \<open>Disconnect\<close>

text \<open>
  A disconnect removes from the registry the player that \<open>socket.playerId\<close> names,
  which is the player of the socket's latest join, and nobody else; the board is left
  exactly as it was, so every piece of that player stays on its cell with its
  \<open>playerId\<close> unchanged; the other sockets are told \<open>player-left\<close>.
\<close>

lemma disconnect_latest_join:
  assumes "socketPlayerId s sock = Some pl" and "map_of (players s) pl = Some p"
  shows "board (fst (disconnect s sock)) = board s
       \<and> pl \<notin> fst ` set (players (fst (disconnect s sock)))
       \<and> (\<forall>q. q \<noteq> pl \<longrightarrow> map_of (players (fst (disconnect s sock))) q = map_of (players s) q)
       \<and> snd (disconnect s sock) = [(ToOthers sock, PlayerLeft pl)]"
  using assms by (simp add: disconnect_def AList.delete_notin_dom)

lemma players_join_game:
  "length (players s) < MAX_PLAYERS \<Longrightarrow>
   players (fst (join_game sp s sock playerName uuid now)) =
     AList.update uuid
       \<lparr> player_id = uuid, socketId = sock,
         player_name = nameOrDefault playerName (length (players s)),
         player_color = nextPlayerIndex s mod PLAYER_COLORS_length,
         colorIndex = nextPlayerIndex s, isActive = True, joinedAt = now \<rparr>
       (players s)"
  by (simp add: join_game_def Let_def)

lemma socket_join_game:
  "length (players s) < MAX_PLAYERS \<Longrightarrow>
   socketPlayerId (fst (join_game sp s sock playerName uuid now)) =
     (socketPlayerId s)(sock := Some uuid)"
  by (simp add: join_game_def Let_def)

lemma afterRejoin_players: "map fst (players afterRejoin) = [7, 9]"
  unfolding afterRejoin_def aliceRejoins_def handle.simps
  by (subst players_join_game) (simp_all add: afterFirstJoin_players MAX_PLAYERS_def)

lemma afterRejoin_socket: "socketPlayerId afterRejoin 11 = Some 9"
  unfolding afterRejoin_def aliceRejoins_def handle.simps
  by (subst socket_join_game) (simp_all add: afterFirstJoin_players MAX_PLAYERS_def)

text \<open>
  Claim C10. The board part holds: no disconnect changes the board. The registry part
  fails when a socket has joined more than once. \<open>join-game\<close> does not look at
  \<open>socket.playerId\<close> before it registers a player and overwrites it, so the player of
  an earlier join over the same socket is out of the socket's reach. In the run
  below the first player's socket joins (player 7), joins again (player 9) and
  disconnects: player 9 is removed and announced as gone, player 7 stays in the
  registry, and the board is the one before the disconnect.
\<close>

theorem rejoin_outlives_disconnect:
  "map fst (players afterFirstJoin) = [7]
   \<and> socketPlayerId afterFirstJoin 11 = Some 7
   \<and> map fst (players afterRejoin) = [7, 9]
   \<and> socketPlayerId afterRejoin 11 = Some 9
   \<and> snd (handle exampleSpiral afterRejoin (Disconnect 11)) = [(ToOthers 11, PlayerLeft 9)]
   \<and> map fst (players afterRejoinLeft) = [7]
   \<and> board afterRejoinLeft = board afterRejoin"
proof -
  obtain p where p: "map_of (players afterRejoin) 9 = Some p"
    using afterRejoin_players by (cases "map_of (players afterRejoin) 9")
      (auto simp: map_of_eq_None_iff image_set)
  have "map fst (AList.delete 9 (players afterRejoin)) = [7]"
    by (simp add: AList.delete_keys afterRejoin_players)
  then show ?thesis
    by (simp add: afterRejoinLeft_def disconnect_def afterRejoin_socket p afterRejoin_players
        afterFirstJoin_players afterFirstJoin_socket)
qed

subsection \<open>Join and capacity\<close>

text \<open>
  Claim C7. \<open>MAX_PLAYERS\<close> is 100. A join that arrives while the registry holds
  \<open>MAX_PLAYERS\<close> players or more is answered with \<open>game-full\<close> to the caller and
  changes nothing in the state. A join that arrives below capacity, with the fresh id
  \<open>uuidv4()\<close> returns, adds exactly one player to the registry, registered under that
  id for the calling socket, and leaves every other entry as it was.
\<close>

theorem join_capacity:
  "MAX_PLAYERS = 100
   \<and> (MAX_PLAYERS \<le> length (players s) \<longrightarrow>
        join_game sp s sock playerName uuid now = (s, [(ToSocket sock, GameFull)]))
   \<and> (length (players s) < MAX_PLAYERS \<and> uuid \<notin> fst ` set (players s) \<longrightarrow>
        length (players (fst (join_game sp s sock playerName uuid now))) = length (players s) + 1
        \<and> (\<exists>pl. map_of (players (fst (join_game sp s sock playerName uuid now))) uuid = Some pl
                \<and> player_id pl = uuid \<and> socketId pl = sock)
        \<and> (\<forall>q. q \<noteq> uuid \<longrightarrow>
              map_of (players (fst (join_game sp s sock playerName uuid now))) q
              = map_of (players s) q))"
  by (simp add: join_game_def MAX_PLAYERS_def Let_def length_update_fresh AList.update_conv')

theorem join_capacity_witness:
  "MAX_PLAYERS \<le> length (players fullState)
   \<and> join_game exampleSpiral fullState 11 None 200 0 = (fullState, [(ToSocket 11, GameFull)])
   \<and> length (players initialState) < MAX_PLAYERS
   \<and> length (players (fst (join_game exampleSpiral initialState 11 None 7 0))) = 1"
  using join_capacity[of fullState exampleSpiral 11 None 200 0]
        join_capacity[of initialState exampleSpiral 11 None 7 0]
  by (simp add: fullState_def initialState_def)

subsection \<open>Section query\<close>

lemma in_sectionCell:
  "q \<in> set (sectionCell s x y) \<longleftrightarrow>
     (\<exists>p. map_of (board s) (x, y) = Some p \<and> ownerActive s p \<and> q = p\<lparr>piece_x := x, piece_y := y\<rparr>)"
proof (cases "map_of (board s) (x, y)")
  case None
  then show ?thesis by (simp add: sectionCell_def)
next
  case (Some p)
  show ?thesis
  proof (cases "playerId p")
    case None
    then show ?thesis using Some by (simp add: sectionCell_def ownerActive_def)
  next
    case (Some pl)
    then show ?thesis using \<open>map_of (board s) (x, y) = Some p\<close>
      by (auto simp: sectionCell_def ownerActive_def)
  qed
qed

lemma sectionRow_returns:
  assumes "- (2 ^ 53) \<le> y" "hi < 2 ^ 53"
  shows "sectionRow s x y hi pieces = Some (pieces @ concat (map (sectionCell s x) [y .. hi]))"
  using assms(1)
proof (induction "nat (hi + 1 - y)" arbitrary: y pieces)
  case 0
  then have "\<not> y \<le> hi" by simp
  then show ?case by (subst sectionRow.simps) simp
next
  case (Suc d)
  then have le: "y \<le> hi" by simp
  then have "y < 2 ^ 53" using assms(2) by simp
  then have inc: "increment y = y + 1" using Suc.prems by (simp add: increment_exact)
  have ih: "sectionRow s x (y + 1) hi (pieces @ sectionCell s x y)
            = Some ((pieces @ sectionCell s x y) @ concat (map (sectionCell s x) [y + 1 .. hi]))"
    using Suc.hyps(1)[of "y + 1"] Suc.hyps(2) Suc.prems by simp
  have "[y .. hi] = y # [y + 1 .. hi]" using le by (simp add: upto.simps)
  then show ?case using le ih by (subst sectionRow.simps) (simp add: inc)
qed

lemma sectionRows_returns:
  assumes "- (2 ^ 53) \<le> x" "maxX bnds < 2 ^ 53" "- (2 ^ 53) \<le> minY bnds" "maxY bnds < 2 ^ 53"
  shows "sectionRows s bnds x pieces =
         Some (pieces @ concat (map (\<lambda>x. concat (map (sectionCell s x) [minY bnds .. maxY bnds]))
                                    [x .. maxX bnds]))"
  using assms(1)
proof (induction "nat (maxX bnds + 1 - x)" arbitrary: x pieces)
  case 0
  then have "\<not> x \<le> maxX bnds" by simp
  then show ?case by (subst sectionRows.simps) simp
next
  case (Suc d)
  then have le: "x \<le> maxX bnds" by simp
  then have "x < 2 ^ 53" using assms(2) by simp
  then have inc: "increment x = x + 1" using Suc.prems by (simp add: increment_exact)
  have row: "sectionRow s x (minY bnds) (maxY bnds) pieces
             = Some (pieces @ concat (map (sectionCell s x) [minY bnds .. maxY bnds]))"
    by (rule sectionRow_returns[OF assms(3,4)])
  have ih: "sectionRows s bnds (x + 1) (pieces @ concat (map (sectionCell s x) [minY bnds .. maxY bnds]))
            = Some ((pieces @ concat (map (sectionCell s x) [minY bnds .. maxY bnds]))
                    @ concat (map (\<lambda>x. concat (map (sectionCell s x) [minY bnds .. maxY bnds]))
                                  [x + 1 .. maxX bnds]))"
    using Suc.hyps(1)[of "x + 1"] Suc.hyps(2) Suc.prems by simp
  have "[x .. maxX bnds] = x # [x + 1 .. maxX bnds]" using le by (simp add: upto.simps)
  then show ?case using le ih by (subst sectionRows.simps) (simp add: inc row)
qed

lemma sectionPieces_returns:
  assumes "safeInteger (minX bnds)" "safeInteger (maxX bnds)"
          "safeInteger (minY bnds)" "safeInteger (maxY bnds)"
  shows "sectionPieces s bnds =
         Some (concat (map (\<lambda>x. concat (map (sectionCell s x) [minY bnds .. maxY bnds]))
                           [minX bnds .. maxX bnds]))"
proof -
  have "- (2 ^ 53) \<le> minX bnds" "maxX bnds < 2 ^ 53" "- (2 ^ 53) \<le> minY bnds" "maxY bnds < 2 ^ 53"
    using assms by (simp_all add: safeInteger_def)
  then show ?thesis
    unfolding sectionPieces_def by (simp add: sectionRows_returns)
qed

lemma in_section_cells:
  "q \<in> set (concat (map (\<lambda>x. concat (map (sectionCell s x) [minY bnds .. maxY bnds]))
                        [minX bnds .. maxX bnds])) \<longleftrightarrow>
     (\<exists>c p. map_of (board s) c = Some p \<and> inBounds bnds c \<and> ownerActive s p
            \<and> q = p\<lparr>piece_x := fst c, piece_y := snd c\<rparr>)"
proof -
  have "q \<in> set (concat (map (\<lambda>x. concat (map (sectionCell s x) [minY bnds .. maxY bnds]))
                        [minX bnds .. maxX bnds])) \<longleftrightarrow>
        (\<exists>x y. inBounds bnds (x, y) \<and> q \<in> set (sectionCell s x y))"
    by (simp add: inBounds_def Bex_def)
  also have "\<dots> \<longleftrightarrow> (\<exists>c p. map_of (board s) c = Some p \<and> inBounds bnds c \<and> ownerActive s p
            \<and> q = p\<lparr>piece_x := fst c, piece_y := snd c\<rparr>)"
    unfolding in_sectionCell by fastforce
  finally show ?thesis .
qed

lemma sectionRows_stuck:
  assumes "sectionRows s bnds x pieces = Some r"
  shows "\<not> (x = 2 ^ 53 \<and> maxX bnds = 2 ^ 53)"
proof (rule sectionRows.raw_induct[where xa = "(((s, bnds), x), pieces)" and y = r
         and P = "\<lambda>s bnds x pieces r. \<not> (x = 2 ^ 53 \<and> maxX bnds = 2 ^ 53)", unfolded prod.case])
  show "sectionRows s bnds x pieces = Some r" by fact
next
  fix rows s and bnds :: bounds and x :: int and pieces r :: "piece list"
  assume ih: "\<And>s bnds x pieces r. rows s bnds x pieces = Some r \<Longrightarrow> \<not> (x = 2 ^ 53 \<and> maxX bnds = 2 ^ 53)"
    and run: "(if x \<le> maxX bnds
               then Option.bind (sectionRow s x (minY bnds) (maxY bnds) pieces)
                      (rows s bnds (increment x))
               else Some pieces) = Some r"
  show "\<not> (x = 2 ^ 53 \<and> maxX bnds = 2 ^ 53)"
  proof
    assume a: "x = 2 ^ 53 \<and> maxX bnds = 2 ^ 53"
    then have "x \<le> maxX bnds" by simp
    moreover have "increment x = x" using a increment_stuck by simp
    ultimately obtain pieces' where "rows s bnds x pieces' = Some r"
      using run by (auto simp: bind_eq_Some_conv)
    from ih[OF this] a show False by simp
  qed
qed

text \<open>
  For bounds that are safe integers the handler of server.js (the repository also
  keeps an older variant of the server whose handler does not filter by owner; the
  active-only handler is the one in force) returns, leaves the state untouched and
  answers the caller only. The pieces it returns are exactly the pieces stored at a
  coordinate inside the inclusive rectangle whose owner is in the player registry,
  each reported with the coordinate of its cell.
\<close>

lemma section_query_safe_bounds:
  assumes "safeInteger (minX bnds)" "safeInteger (maxX bnds)"
          "safeInteger (minY bnds)" "safeInteger (maxY bnds)"
  shows "\<exists>pieces. get_board_section s sock bnds = Some (s, [(ToSocket sock, BoardSection bnds pieces)])
           \<and> set pieces =
               {p\<lparr>piece_x := fst c, piece_y := snd c\<rparr> | c p.
                  map_of (board s) c = Some p \<and> inBounds bnds c \<and> ownerActive s p}"
proof -
  let ?ps = "concat (map (\<lambda>x. concat (map (sectionCell s x) [minY bnds .. maxY bnds]))
                         [minX bnds .. maxX bnds])"
  have "set ?ps = {p\<lparr>piece_x := fst c, piece_y := snd c\<rparr> | c p.
                  map_of (board s) c = Some p \<and> inBounds bnds c \<and> ownerActive s p}"
    by (rule set_eqI) (simp only: in_section_cells mem_Collect_eq, blast)
  moreover have "get_board_section s sock bnds = Some (s, [(ToSocket sock, BoardSection bnds ?ps)])"
    by (simp add: get_board_section_def sectionPieces_returns[OF assms])
  ultimately show ?thesis by blast
qed

lemma section_query_example:
  "get_board_section afterFirstJoin 11 \<lparr>minX = -3, maxX = -3, minY = 0, maxY = 5\<rparr>
   = Some (afterFirstJoin,
           [(ToSocket 11, BoardSection \<lparr>minX = -3, maxX = -3, minY = 0, maxY = 5\<rparr>
                            [mkPiece Rook (-3) 0 0 7, mkPiece Pawn (-3) 1 0 7])])"
proof -
  have up: "[0 .. 5] = [0, 1, 2, 3, 4, 5::int]" "[-3 .. -3] = [-3::int]"
    by (simp_all add: upto.simps)
  have "sectionPieces afterFirstJoin \<lparr>minX = -3, maxX = -3, minY = 0, maxY = 5\<rparr>
        = Some [mkPiece Rook (-3) 0 0 7, mkPiece Pawn (-3) 1 0 7]"
    by (subst sectionPieces_returns)
       (simp_all add: safeInteger_def sectionCell_def afterFirstJoin_board afterFirstJoin_players
          aliceBoard_def up mkPiece_def)
  then show ?thesis by (simp add: get_board_section_def)
qed

text \<open>
  Claim C6. The claim is for every bounds value, and the handler does not return for
  every bounds value. Its loops advance with \<open>x++\<close> and \<open>y++\<close>, and at \<open>2^53\<close> the
  increment of a double gives the same double again. With
  \<open>minX = maxX = 2^53\<close> the test \<open>x <= maxX\<close> never fails: the handler neither answers
  nor returns, on the empty board as on any other.
\<close>

theorem section_query_never_returns:
  "increment 9007199254740992 = 9007199254740992
   \<and> get_board_section initialState 11
        \<lparr>minX = 9007199254740992, maxX = 9007199254740992, minY = 0, maxY = 0\<rparr> = None"
proof -
  have "sectionRows initialState \<lparr>minX = 9007199254740992, maxX = 9007199254740992, minY = 0, maxY = 0\<rparr>
          9007199254740992 [] = None"
  proof (cases "sectionRows initialState \<lparr>minX = 9007199254740992, maxX = 9007199254740992, minY = 0, maxY = 0\<rparr>
          9007199254740992 []")
    case (Some r)
    from sectionRows_stuck[OF this] show ?thesis by simp
  qed simp
  then show ?thesis by (simp add: get_board_section_def sectionPieces_def increment_stuck_numeral)
qed

subsection \<open>Moves: what the handler checks\<close>

lemma moveApplied_iff:
  "moveApplied s sock m \<longleftrightarrow>
     (\<exists>pl p. currentPlayer s sock = Some pl
          \<and> map_of (board s) (fromX m, fromY m) = Some p
          \<and> playerId p = Some (player_id pl))"
  by (auto simp: moveApplied_def move_piece_def Let_def split: option.splits)

lemma move_piece_rejected:
  "\<not> moveApplied s sock m \<Longrightarrow>
     move_piece s sock m =
       (s, if currentPlayer s sock = None then []
           else [(ToSocket sock, InvalidMove ''Not your piece'')])"
  by (auto simp: moveApplied_def move_piece_def Let_def split: option.splits)

lemma move_piece_applied:
  assumes "currentPlayer s sock = Some pl" "map_of (board s) (fromX m, fromY m) = Some p"
          "playerId p = Some (player_id pl)"
  shows "move_piece s sock m =
          (s\<lparr>board := AList.update (toX m, toY m) (p\<lparr>piece_x := toX m, piece_y := toY m\<rparr>)
                         (AList.delete (fromX m, fromY m) (board s))\<rparr>,
           [(ToAll, PieceMoved (player_id pl) m (p\<lparr>piece_x := toX m, piece_y := toY m\<rparr>))])"
  using assms by (simp add: move_piece_def Let_def)

lemma on_move_piece_payload: "on_move_piece s sock (Some m) = Value (move_piece s sock m)"
  by (simp add: on_move_piece_def move_piece_def split: option.splits)

lemma currentPlayer_initial: "currentPlayer initialState sock = None"
  by (simp add: currentPlayer_def initialState_def)

lemma currentPlayer_alice: 
  "currentPlayer afterFirstJoin 11 =
     Some \<lparr> player_id = 7, socketId = 11, player_name = ''Alice'', player_color = 0,
            colorIndex = 0, isActive = True, joinedAt = 0 \<rparr>"
  by (simp add: currentPlayer_def afterFirstJoin_socket afterFirstJoin_players)

subsection \<open>Rejected commands\<close>

text \<open>
  Claim C8, as the code has it. The rejected commands are a join at capacity, a move
  from a socket with no registered player, whatever it carries, and a move that
  carries its four coordinates, from a registered player, whose source cell is empty
  or holds a piece that is not the player's. On each of them the handler returns and
  leaves the whole state as it was: board, registry and socket bindings. The join at
  capacity is answered with \<open>game-full\<close> and the move of the registered player with
  \<open>invalid-move\<close>, reason \<open>Not your piece\<close>, each to the calling socket and to nobody
  else. The move from a socket with no registered player is answered with nothing at
  all.
\<close>

theorem rejection_leaves_state:
  "(MAX_PLAYERS \<le> length (players s) \<longrightarrow>
      join_game sp s sock playerName uuid now = (s, [(ToSocket sock, GameFull)]))
   \<and> (currentPlayer s sock = None \<longrightarrow> on_move_piece s sock payload = Value (s, []))
   \<and> (\<forall>pl. currentPlayer s sock = Some pl
           \<and> (\<forall>p. map_of (board s) (fromX m, fromY m) = Some p \<longrightarrow>
                   playerId p \<noteq> Some (player_id pl)) \<longrightarrow>
         on_move_piece s sock (Some m)
         = Value (s, [(ToSocket sock, InvalidMove ''Not your piece'')]))"
proof -
  have A: "MAX_PLAYERS \<le> length (players s) \<longrightarrow>
      join_game sp s sock playerName uuid now = (s, [(ToSocket sock, GameFull)])"
    by (simp add: join_game_def)
  have B: "currentPlayer s sock = None \<longrightarrow> on_move_piece s sock payload = Value (s, [])"
    by (simp add: on_move_piece_def)
  have C: "on_move_piece s sock (Some m)
         = Value (s, [(ToSocket sock, InvalidMove ''Not your piece'')])"
    if "currentPlayer s sock = Some pl"
       "\<forall>p. map_of (board s) (fromX m, fromY m) = Some p \<longrightarrow> playerId p \<noteq> Some (player_id pl)"
    for pl
    using that by (simp add: on_move_piece_def move_piece_def split: option.splits)
  from A B C show ?thesis by blast
qed

theorem rejection_leaves_state_witness:
  "MAX_PLAYERS \<le> length (players fullState)
   \<and> join_game exampleSpiral fullState 11 None 200 0 = (fullState, [(ToSocket 11, GameFull)])
   \<and> currentPlayer fullState 11 = None
   \<and> on_move_piece fullState 11 None = Value (fullState, [])
   \<and> currentPlayer afterFirstJoin 11 \<noteq> None
   \<and> map_of (board afterFirstJoin) (9, 9) = None
   \<and> on_move_piece afterFirstJoin 11 (Some \<lparr>fromX = 9, fromY = 9, toX = 0, toY = 1\<rparr>)
       = Value (afterFirstJoin, [(ToSocket 11, InvalidMove ''Not your piece'')])"
proof -
  have full: "MAX_PLAYERS \<le> length (players fullState)"
    by (simp add: fullState_def MAX_PLAYERS_def)
  have none: "currentPlayer fullState 11 = None"
    by (simp add: currentPlayer_def fullState_def)
  have empty: "map_of (board afterFirstJoin) (9, 9) = None"
    by (simp add: afterFirstJoin_board aliceBoard_def)
  show ?thesis
    using rejection_leaves_state[of fullState exampleSpiral 11 None 200 0 None]
          rejection_leaves_state[of afterFirstJoin _ 11 _ _ _ _
             "\<lparr>fromX = 9, fromY = 9, toX = 0, toY = 1\<rparr>"]
          full none empty
    by (simp add: currentPlayer_alice)
qed

text \<open>The claim as stated has an error reported on every rejection and no rejection
  ending the process. A move sent before any join is rejected and nothing at all is
  emitted. A \<open>move-piece\<close> event without a payload, sent by a player who has joined,
  makes the handler throw at the destructuring, and nothing catches it.\<close>

theorem unreported_rejection_counterexample:
  "currentPlayer initialState 11 = None
   \<and> on_move_piece initialState 11 (Some \<lparr>fromX = 0, fromY = 0, toX = 0, toY = 1\<rparr>)
       = Value (initialState, [])
   \<and> currentPlayer afterFirstJoin 11 \<noteq> None
   \<and> on_move_piece afterFirstJoin 11 None = TypeError"
  by (simp add: on_move_piece_def currentPlayer_initial currentPlayer_alice)

section \<open>Movement rules and the move handler\<close>

subsection \<open>What the handler requires of a move\<close>

text \<open>
  Claim C1, as the code has it. The \<open>move-piece\<close> handler applies a move exactly when the
  calling socket has a registered player, a piece stands on the source cell and that
  piece's \<open>playerId\<close> is the player's id. It then takes the piece off the source
  cell, puts it with its position fields rewritten on the destination cell, in place
  of whatever stood there, and broadcasts \<open>piece-moved\<close>. The deltas are not looked
  at. Otherwise the state is unchanged; the caller is answered \<open>invalid-move\<close> with
  the reason \<open>Not your piece\<close> when its socket has a registered player, and not at
  all when it has none.
\<close>

theorem move_applied_on_ownership_only:
  "(moveApplied s sock m \<longleftrightarrow>
      (\<exists>pl p. currentPlayer s sock = Some pl
           \<and> map_of (board s) (fromX m, fromY m) = Some p
           \<and> playerId p = Some (player_id pl)))
   \<and> (\<forall>pl p. currentPlayer s sock = Some pl
           \<and> map_of (board s) (fromX m, fromY m) = Some p
           \<and> playerId p = Some (player_id pl) \<longrightarrow>
         move_piece s sock m =
           (s\<lparr>board := AList.update (toX m, toY m) (p\<lparr>piece_x := toX m, piece_y := toY m\<rparr>)
                          (AList.delete (fromX m, fromY m) (board s))\<rparr>,
            [(ToAll, PieceMoved (player_id pl) m (p\<lparr>piece_x := toX m, piece_y := toY m\<rparr>))]))
   \<and> (\<not> moveApplied s sock m \<longrightarrow>
         move_piece s sock m =
           (s, if currentPlayer s sock = None then []
               else [(ToSocket sock, InvalidMove ''Not your piece'')]))"
proof -
  have A: "moveApplied s sock m \<longleftrightarrow>
      (\<exists>pl p. currentPlayer s sock = Some pl
           \<and> map_of (board s) (fromX m, fromY m) = Some p
           \<and> playerId p = Some (player_id pl))"
    by (rule moveApplied_iff)
  have B: "move_piece s sock m =
           (s\<lparr>board := AList.update (toX m, toY m) (p\<lparr>piece_x := toX m, piece_y := toY m\<rparr>)
                          (AList.delete (fromX m, fromY m) (board s))\<rparr>,
            [(ToAll, PieceMoved (player_id pl) m (p\<lparr>piece_x := toX m, piece_y := toY m\<rparr>))])"
    if "currentPlayer s sock = Some pl" "map_of (board s) (fromX m, fromY m) = Some p"
       "playerId p = Some (player_id pl)" for pl p
    using that by (rule move_piece_applied)
  have C: "\<not> moveApplied s sock m \<longrightarrow>
         move_piece s sock m =
           (s, if currentPlayer s sock = None then []
               else [(ToSocket sock, InvalidMove ''Not your piece'')])"
    using move_piece_rejected[of s sock m] by blast
  from A B C show ?thesis by blast
qed

theorem move_applied_on_ownership_only_witness:
  "moveApplied afterFirstJoin 11 \<lparr>fromX = 0, fromY = 1, toX = 0, toY = 2\<rparr>
   \<and> map_of (board afterFirstJoin) (0, 1) = Some (mkPiece Pawn 0 1 0 7)
   \<and> move_piece afterFirstJoin 11 \<lparr>fromX = 0, fromY = 1, toX = 0, toY = 2\<rparr>
       = (afterFirstJoin\<lparr>board := AList.update (0, 2) (mkPiece Pawn 0 2 0 7)
                                     (AList.delete (0, 1) aliceBoard)\<rparr>,
          [(ToAll, PieceMoved 7 \<lparr>fromX = 0, fromY = 1, toX = 0, toY = 2\<rparr> (mkPiece Pawn 0 2 0 7))])
   \<and> \<not> moveApplied afterFirstJoin 11 \<lparr>fromX = 9, fromY = 9, toX = 0, toY = 1\<rparr>
   \<and> move_piece afterFirstJoin 11 \<lparr>fromX = 9, fromY = 9, toX = 0, toY = 1\<rparr>
       = (afterFirstJoin, [(ToSocket 11, InvalidMove ''Not your piece'')])"
proof -
  have p: "map_of (board afterFirstJoin) (0, 1) = Some (mkPiece Pawn 0 1 0 7)"
    and e: "map_of (board afterFirstJoin) (9, 9) = None"
    by (simp_all add: afterFirstJoin_board aliceBoard_def)
  show ?thesis
    using move_applied_on_ownership_only[of afterFirstJoin 11
             "\<lparr>fromX = 0, fromY = 1, toX = 0, toY = 2\<rparr>"]
          move_applied_on_ownership_only[of afterFirstJoin 11
             "\<lparr>fromX = 9, fromY = 9, toX = 0, toY = 1\<rparr>"]
          p e
    by (simp add: currentPlayer_alice afterFirstJoin_board mkPiece_def)
qed

text \<open>The claim as stated makes the movement rule a condition of applying a move, and
  has every move that is not applied rejected with a reason. After the first join the
  pawn on \<open>(0, 1)\<close> is moved to \<open>(5, 5)\<close> by its owner: no pawn step, and the handler
  applies it. Before any join a move is not applied and no reason is given to
  anyone.\<close>

theorem wild_pawn_move_counterexample:
  "moveApplied afterFirstJoin 11 \<lparr>fromX = 0, fromY = 1, toX = 5, toY = 5\<rparr>
   \<and> map_of (board afterFirstJoin) (0, 1) = Some (mkPiece Pawn 0 1 0 7)
   \<and> \<not> spec_pattern Pawn (5 - 0) (5 - 1)
   \<and> map_of (board (fst (move_piece afterFirstJoin 11 \<lparr>fromX = 0, fromY = 1, toX = 5, toY = 5\<rparr>)))
        (5, 5) = Some (mkPiece Pawn 5 5 0 7)
   \<and> \<not> moveApplied initialState 11 \<lparr>fromX = 0, fromY = 1, toX = 0, toY = 2\<rparr>
   \<and> move_piece initialState 11 \<lparr>fromX = 0, fromY = 1, toX = 0, toY = 2\<rparr> = (initialState, [])"
  by (simp add: moveApplied_iff move_piece_def currentPlayer_alice currentPlayer_initial
      afterFirstJoin_board aliceBoard_def spec_pattern_def Let_def mkPiece_def)

subsection \<open>Blocked paths\<close>

lemma destination_not_on_path:
  "(tX, tY) \<notin> set (spec_pathCells fX fY tX tY)"
proof
  assume "(tX, tY) \<in> set (spec_pathCells fX fY tX tY)"
  then obtain k where k: "1 \<le> k" "k < nat (max \<bar>tX - fX\<bar> \<bar>tY - fY\<bar>)"
      and x: "tX = fX + int k * sgn (tX - fX)" and y: "tY = fY + int k * sgn (tY - fY)"
    by (auto simp: spec_pathCells_def)
  have ax: "\<bar>tX - fX\<bar> = 0 \<or> \<bar>tX - fX\<bar> = int k"
    using x by (cases "tX - fX < 0"; cases "tX - fX = 0") (simp_all add: sgn_if)
  have ay: "\<bar>tY - fY\<bar> = 0 \<or> \<bar>tY - fY\<bar> = int k"
    using y by (cases "tY - fY < 0"; cases "tY - fY = 0") (simp_all add: sgn_if)
  have "max \<bar>tX - fX\<bar> \<bar>tY - fY\<bar> \<le> int k"
    using ax ay by linarith
  then have "nat (max \<bar>tX - fX\<bar> \<bar>tY - fY\<bar>) \<le> k"
    by (simp only: nat_le_iff)
  with k(2) show False by simp
qed

lemma far_bishop_never_decided:
  "validateMove (Some (mkPiece Bishop 9007199254740992 0 0 7))
     9007199254740992 0 9007199254740996 4 farBoard = None"
proof -
  have empty: "\<forall>y'. 1 \<le> y' \<longrightarrow> map_of farBoard (9007199254740992, y') = None"
    by (simp add: farBoard_def)
  have loop: "pathLoop farBoard (Num 1) (Num 1) 9007199254740996 4
                (Num 9007199254740992) (Num 1) = None"
  proof (cases "pathLoop farBoard (Num 1) (Num 1) 9007199254740996 4
                (Num 9007199254740992) (Num 1)")
    case (Some r)
    from pathLoop_stuck[OF this _ _ _ empty] show ?thesis by simp
  qed simp
  have f4: "fromExact 4 = Num 4" by (rule fromExact_exact) simp
  have f1: "fromExact 1 = Num 1" by (rule fromExact_exact) simp
  have fx: "fromExact 9007199254740993 = Num 9007199254740992"
    using fromExact_above_limit by simp
  show ?thesis
    by (simp add: validateMove_def validateBishopMove_def validateLinearMove_def js_sub_def
        Let_def f4 f1 fx loop)
qed

text \<open>
  Claim C2, as the code has it. The check of the path is in \<open>validateMove\<close>. For a
  rook, bishop or queen standing on the source cell, with source and destination
  coordinates that are safe integers no more than \<open>2^53\<close> apart on either axis, a
  piece of any owner on a cell strictly between source and destination makes
  \<open>validateMove\<close> return \<open>false\<close>, and \<open>isMoveLegal\<close> reports the move invalid with the
  reason \<open>Invalid move for this piece\<close> (there is no separate reason for a blocked
  path). The destination is never one of the cells in between: when the pattern holds
  and the cells in between are empty, the answer is the capture rule on the
  destination alone. The \<open>move-piece\<close> handler does not call the validator: it
  applies the move whenever the piece belongs to the player of the calling socket,
  whatever stands in between.
\<close>

theorem blocked_path_is_invalid:
  assumes "map_of (board s) (fromX m, fromY m) = Some p" and "slides (piece_type p)"
      and "withinPrecision (fromX m) (fromY m) (toX m) (toY m)"
  shows "(\<forall>c q. c \<in> set (spec_pathCells (fromX m) (fromY m) (toX m) (toY m))
              \<and> map_of (board s) c = Some q \<longrightarrow>
            validateMove (Some p) (fromX m) (fromY m) (toX m) (toY m) (board s) = Some (Value False)
            \<and> (playerId p = Some r \<longrightarrow>
                 isMoveLegal m r s
                 = Some (Value \<lparr>valid = False, reason = Some ''Invalid move for this piece''\<rparr>)))
       \<and> (toX m, toY m) \<notin> set (spec_pathCells (fromX m) (fromY m) (toX m) (toY m))
       \<and> (spec_pattern (piece_type p) (toX m - fromX m) (toY m - fromY m)
            \<and> spec_pathClear (board s) (fromX m) (fromY m) (toX m) (toY m) \<longrightarrow>
          validateMove (Some p) (fromX m) (fromY m) (toX m) (toY m) (board s)
          = Some (Value (spec_captureOk (board s) p (toX m) (toY m))))
       \<and> (\<forall>pl. currentPlayer s sock = Some pl \<and> playerId p = Some (player_id pl) \<longrightarrow>
            moveApplied s sock m)"
proof -
  have nk: "piece_type p \<noteq> Knight \<and> piece_type p \<noteq> King"
    using assms(2) by (auto simp: slides_def)
  have blocked: "\<not> spec_pathClear (board s) (fromX m) (fromY m) (toX m) (toY m)"
    if "c \<in> set (spec_pathCells (fromX m) (fromY m) (toX m) (toY m))" "map_of (board s) c = Some q"
    for c q
    using that by (auto simp: spec_pathClear_def list_all_iff)
  have A: "validateMove (Some p) (fromX m) (fromY m) (toX m) (toY m) (board s) = Some (Value False)
            \<and> (playerId p = Some r \<longrightarrow>
                 isMoveLegal m r s
                 = Some (Value \<lparr>valid = False, reason = Some ''Invalid move for this piece''\<rparr>))"
    if "c \<in> set (spec_pathCells (fromX m) (fromY m) (toX m) (toY m))" "map_of (board s) c = Some q"
    for c q
    using blocked[OF that] assms(2)
    by (simp add: validateMove_on_board[OF assms(1,3)] isMoveLegal_on_board[OF assms(1) _ assms(3)])
  have B: "validateMove (Some p) (fromX m) (fromY m) (toX m) (toY m) (board s)
          = Some (Value (spec_captureOk (board s) p (toX m) (toY m)))"
    if "spec_pattern (piece_type p) (toX m - fromX m) (toY m - fromY m)"
       "spec_pathClear (board s) (fromX m) (fromY m) (toX m) (toY m)"
    using that nk by (simp add: validateMove_on_board[OF assms(1,3)])
  have C: "moveApplied s sock m"
    if "currentPlayer s sock = Some pl" "playerId p = Some (player_id pl)" for pl
    using that assms(1) by (auto simp: moveApplied_iff)
  from A B C destination_not_on_path[of "toX m" "toY m" "fromX m" "fromY m"]
  show ?thesis by blast
qed

theorem blocked_path_is_invalid_witness:
  "map_of (board afterFirstJoin) (-3, 0) = Some (mkPiece Rook (-3) 0 0 7)
   \<and> slides Rook
   \<and> withinPrecision (-3) 0 (-3) 3
   \<and> (-3, 1) \<in> set (spec_pathCells (-3) 0 (-3) 3)
   \<and> map_of (board afterFirstJoin) (-3, 1) = Some (mkPiece Pawn (-3) 1 0 7)
   \<and> validateMove (Some (mkPiece Rook (-3) 0 0 7)) (-3) 0 (-3) 3 (board afterFirstJoin)
       = Some (Value False)
   \<and> isMoveLegal \<lparr>fromX = -3, fromY = 0, toX = -3, toY = 3\<rparr> 7 afterFirstJoin
       = Some (Value \<lparr>valid = False, reason = Some ''Invalid move for this piece''\<rparr>)
   \<and> moveApplied afterFirstJoin 11 \<lparr>fromX = -3, fromY = 0, toX = -3, toY = 3\<rparr>"
proof -
  have a: "map_of (board afterFirstJoin) (-3, 0) = Some (mkPiece Rook (-3) 0 0 7)"
    and b: "map_of (board afterFirstJoin) (-3, 1) = Some (mkPiece Pawn (-3) 1 0 7)"
    by (simp_all add: afterFirstJoin_board aliceBoard_def)
  have c: "(-3, 1) \<in> set (spec_pathCells (-3) 0 (-3) 3)"
    by (simp add: spec_pathCells_def upt_rec)
  have sl: "slides Rook"
    by (simp add: slides_def)
  have wp: "withinPrecision (-3) 0 (-3) 3"
    by (simp add: withinPrecision_def safeInteger_def)
  have "(\<forall>c q. c \<in> set (spec_pathCells (-3) 0 (-3) 3)
              \<and> map_of (board afterFirstJoin) c = Some q \<longrightarrow>
            validateMove (Some (mkPiece Rook (-3) 0 0 7)) (-3) 0 (-3) 3 (board afterFirstJoin)
              = Some (Value False)
            \<and> isMoveLegal \<lparr>fromX = -3, fromY = 0, toX = -3, toY = 3\<rparr> 7 afterFirstJoin
              = Some (Value \<lparr>valid = False, reason = Some ''Invalid move for this piece''\<rparr>))
        \<and> moveApplied afterFirstJoin 11 \<lparr>fromX = -3, fromY = 0, toX = -3, toY = 3\<rparr>"
    using blocked_path_is_invalid[of afterFirstJoin
            "\<lparr>fromX = -3, fromY = 0, toX = -3, toY = 3\<rparr>" "mkPiece Rook (-3) 0 0 7" 7 11] a sl wp
    by (simp add: currentPlayer_alice)
  with a b c sl wp show ?thesis by blast
qed

text \<open>The claim as stated has such a move not applied, and has every blocked move
  rejected. After the first join the rook on \<open>(-3, 0)\<close> is moved to \<open>(-3, 3)\<close> across
  the pawn on \<open>(-3, 1)\<close>, and the handler applies it. On the far board the bishop on
  \<open>(2^53, 0)\<close> is asked to go to \<open>(2^53 + 4, 4)\<close> across the pawn on
  \<open>(2^53 + 2, 2)\<close>: the walk of \<open>validateMove\<close> never leaves the column \<open>2^53\<close>, meets
  neither the pawn nor the destination, and gives no answer.\<close>

theorem rook_through_pawn_counterexample:
  "moveApplied afterFirstJoin 11 \<lparr>fromX = -3, fromY = 0, toX = -3, toY = 3\<rparr>
   \<and> map_of (board afterFirstJoin) (-3, 0) = Some (mkPiece Rook (-3) 0 0 7)
   \<and> (-3, 1) \<in> set (spec_pathCells (-3) 0 (-3) 3)
   \<and> map_of (board afterFirstJoin) (-3, 1) = Some (mkPiece Pawn (-3) 1 0 7)
   \<and> map_of (board (fst (move_piece afterFirstJoin 11 \<lparr>fromX = -3, fromY = 0, toX = -3, toY = 3\<rparr>)))
        (-3, 3) = Some (mkPiece Rook (-3) 3 0 7)
   \<and> map_of farBoard (9007199254740992, 0) = Some (mkPiece Bishop 9007199254740992 0 0 7)
   \<and> (9007199254740994, 2) \<in> set (spec_pathCells 9007199254740992 0 9007199254740996 4)
   \<and> map_of farBoard (9007199254740994, 2) = Some (mkPiece Pawn 9007199254740994 2 0 7)
   \<and> validateMove (Some (mkPiece Bishop 9007199254740992 0 0 7))
        9007199254740992 0 9007199254740996 4 farBoard = None"
proof -
  have "moveApplied afterFirstJoin 11 \<lparr>fromX = -3, fromY = 0, toX = -3, toY = 3\<rparr>
   \<and> map_of (board afterFirstJoin) (-3, 0) = Some (mkPiece Rook (-3) 0 0 7)
   \<and> (-3, 1) \<in> set (spec_pathCells (-3) 0 (-3) 3)
   \<and> map_of (board afterFirstJoin) (-3, 1) = Some (mkPiece Pawn (-3) 1 0 7)
   \<and> map_of (board (fst (move_piece afterFirstJoin 11 \<lparr>fromX = -3, fromY = 0, toX = -3, toY = 3\<rparr>)))
        (-3, 3) = Some (mkPiece Rook (-3) 3 0 7)"
    by (simp add: moveApplied_iff move_piece_def currentPlayer_alice afterFirstJoin_board
      aliceBoard_def spec_pathCells_def upt_rec Let_def mkPiece_def)
  moreover have "map_of farBoard (9007199254740992, 0) = Some (mkPiece Bishop 9007199254740992 0 0 7)"
    "map_of farBoard (9007199254740994, 2) = Some (mkPiece Pawn 9007199254740994 2 0 7)"
    by (simp_all add: farBoard_def)
  moreover have "(9007199254740994, 2) \<in> set (spec_pathCells 9007199254740992 0 9007199254740996 4)"
    by (simp add: spec_pathCells_def upt_rec)
  ultimately show ?thesis using far_bishop_never_decided by blast
qed

subsection \<open>Piece count under a move\<close>

lemma map_of_after_move:
  "map_of (AList.update t v (AList.delete f b)) = ((map_of b)(f := None))(t \<mapsto> v)"
  by (simp add: AList.update_conv' AList.delete_conv')

text \<open>
  Claim C3, as the code has it. For a move the handler applies on a board with one
  entry per coordinate: the moving piece, with its position fields rewritten, ends on
  the destination, the source cell is emptied and every other cell is untouched; the
  board still has one entry per coordinate. With an empty destination (or the source
  itself as destination) the number of pieces is unchanged. With a destination held by
  another piece, whoever owns it, that piece is replaced and the number of pieces drops
  by exactly one. The handler refuses no destination: a move onto a piece of the same
  owner is applied like any other.
\<close>

theorem applied_move_piece_count:
  assumes "distinct (map fst (board s))" and "moveApplied s sock m"
      and "map_of (board s) (fromX m, fromY m) = Some p"
  shows "map_of (board (fst (move_piece s sock m)))
           = ((map_of (board s))((fromX m, fromY m) := None))
               ((toX m, toY m) \<mapsto> p\<lparr>piece_x := toX m, piece_y := toY m\<rparr>)
       \<and> distinct (map fst (board (fst (move_piece s sock m))))
       \<and> (map_of (board s) (toX m, toY m) = None \<longrightarrow>
            length (board (fst (move_piece s sock m))) = length (board s))
       \<and> ((toX m, toY m) = (fromX m, fromY m) \<longrightarrow>
            length (board (fst (move_piece s sock m))) = length (board s))
       \<and> (\<forall>q. map_of (board s) (toX m, toY m) = Some q \<and> (toX m, toY m) \<noteq> (fromX m, fromY m) \<longrightarrow>
            Suc (length (board (fst (move_piece s sock m)))) = length (board s))"
proof -
  obtain pl where pl: "currentPlayer s sock = Some pl" "playerId p = Some (player_id pl)"
    using assms(2,3) by (auto simp: moveApplied_iff)
  define b1 where "b1 = AList.delete (fromX m, fromY m) (board s)"
  define p' where "p' = p\<lparr>piece_x := toX m, piece_y := toY m\<rparr>"
  have b': "board (fst (move_piece s sock m)) = AList.update (toX m, toY m) p' b1"
    by (simp add: move_piece_applied[OF pl(1) assms(3) pl(2)] b1_def p'_def)
  have fin: "(fromX m, fromY m) \<in> fst ` set (board s)"
    using map_of_SomeD[OF assms(3)] by (rule image_eqI[rotated]) simp
  have l1: "Suc (length b1) = length (board s)"
    unfolding b1_def by (rule length_delete_present[OF assms(1) fin])
  have d1: "distinct (map fst b1)"
    unfolding b1_def by (rule AList.distinct_delete[OF assms(1)])
  have keys1: "fst ` set b1 = fst ` set (board s) - {(fromX m, fromY m)}"
  proof -
    have "set (map fst b1) = set (map fst (board s)) - {(fromX m, fromY m)}"
      unfolding b1_def AList.delete_keys by (rule set_removeAll)
    then show ?thesis by (simp only: set_map)
  qed
  have A: "map_of (board (fst (move_piece s sock m)))
           = ((map_of (board s))((fromX m, fromY m) := None))((toX m, toY m) \<mapsto> p')"
    unfolding b' b1_def by (rule map_of_after_move)
  have B: "distinct (map fst (board (fst (move_piece s sock m))))"
    unfolding b' by (rule AList.distinct_update[OF d1])
  have C: "length (board (fst (move_piece s sock m))) = length (board s)"
    if "map_of (board s) (toX m, toY m) = None \<or> (toX m, toY m) = (fromX m, fromY m)"
  proof -
    have "(toX m, toY m) \<notin> fst ` set (board s) \<or> (toX m, toY m) = (fromX m, fromY m)"
      using that by (simp only: map_of_None_iff_keys)
    then have "(toX m, toY m) \<notin> fst ` set b1"
      unfolding keys1 by blast
    then show ?thesis using l1 by (simp add: b' length_update_fresh)
  qed
  have D: "Suc (length (board (fst (move_piece s sock m)))) = length (board s)"
    if "map_of (board s) (toX m, toY m) = Some q" "(toX m, toY m) \<noteq> (fromX m, fromY m)" for q
  proof -
    have "(toX m, toY m) \<in> fst ` set (board s)"
      using map_of_SomeD[OF that(1)] by (rule image_eqI[rotated]) simp
    then have "(toX m, toY m) \<in> fst ` set b1"
      unfolding keys1 using that(2) by blast
    then show ?thesis using l1 by (simp add: b' length_update_present)
  qed
  from A B C D show ?thesis unfolding p'_def by blast
qed

theorem applied_move_piece_count_witness:
  "distinct (map fst (board afterFirstJoin))
   \<and> moveApplied afterFirstJoin 11 \<lparr>fromX = 0, fromY = 1, toX = 0, toY = 2\<rparr>
   \<and> map_of (board afterFirstJoin) (0, 2) = None
   \<and> length (board (fst (move_piece afterFirstJoin 11 \<lparr>fromX = 0, fromY = 1, toX = 0, toY = 2\<rparr>)))
       = length (board afterFirstJoin)"
proof -
  have d: "distinct (map fst (board afterFirstJoin))"
    by (simp add: afterFirstJoin_board aliceBoard_def)
  have a: "moveApplied afterFirstJoin 11 \<lparr>fromX = 0, fromY = 1, toX = 0, toY = 2\<rparr>"
    by (simp add: moveApplied_iff currentPlayer_alice afterFirstJoin_board aliceBoard_def)
  have p: "map_of (board afterFirstJoin)
             (fromX \<lparr>fromX = 0, fromY = 1, toX = 0, toY = 2\<rparr>,
              fromY \<lparr>fromX = 0, fromY = 1, toX = 0, toY = 2\<rparr>) = Some (mkPiece Pawn 0 1 0 7)"
    by (simp add: afterFirstJoin_board aliceBoard_def)
  have e: "map_of (board afterFirstJoin) (0, 2) = None"
    by (simp add: afterFirstJoin_board aliceBoard_def)
  show ?thesis
    using applied_move_piece_count[OF d a p] d a e by simp
qed

text \<open>The claim as stated says that a move onto a piece of the same owner is never
  applied. After the first join the rook on \<open>(-3, 0)\<close> is moved onto its owner's pawn
  on \<open>(-3, 1)\<close>: the handler applies it and sixteen pieces become fifteen.\<close>

theorem own_piece_capture_counterexample:
  "moveApplied afterFirstJoin 11 \<lparr>fromX = -3, fromY = 0, toX = -3, toY = 1\<rparr>
   \<and> map_of (board afterFirstJoin) (-3, 0) = Some (mkPiece Rook (-3) 0 0 7)
   \<and> map_of (board afterFirstJoin) (-3, 1) = Some (mkPiece Pawn (-3) 1 0 7)
   \<and> playerId (mkPiece Pawn (-3) 1 0 7) = playerId (mkPiece Rook (-3) 0 0 7)
   \<and> length (board afterFirstJoin) = 16
   \<and> length (board (fst (move_piece afterFirstJoin 11 \<lparr>fromX = -3, fromY = 0, toX = -3, toY = 1\<rparr>))) = 15
   \<and> map_of (board (fst (move_piece afterFirstJoin 11 \<lparr>fromX = -3, fromY = 0, toX = -3, toY = 1\<rparr>)))
        (-3, 1) = Some (mkPiece Rook (-3) 1 0 7)"
  by (simp add: moveApplied_iff move_piece_def currentPlayer_alice afterFirstJoin_board
      aliceBoard_def Let_def mkPiece_def)

section \<open>Invariants of the board\<close>

lemma set_update_subset: "set (AList.update k v al) \<subseteq> insert (k, v) (set al)"
  by (induction al) auto

lemma set_delete_subset: "set (AList.delete k al) \<subseteq> set al"
  by (auto simp: AList.delete_eq)

lemma keyed_update:
  assumes "keyed b" "k = (piece_x v, piece_y v)"
  shows "keyed (AList.update k v b)"
proof -
  have "distinct (map fst (AList.update k v b))"
    using assms(1) by (simp add: keyed_def AList.distinct_update)
  moreover have "\<forall>e \<in> set (AList.update k v b). case e of (k, p) \<Rightarrow> k = (piece_x p, piece_y p)"
    using assms set_update_subset[of k v b] by (auto simp: keyed_def list_all_iff)
  ultimately show ?thesis by (simp add: keyed_def list_all_iff)
qed

lemma keyed_delete:
  assumes "keyed b"
  shows "keyed (AList.delete k b)"
proof -
  have "distinct (map fst (AList.delete k b))"
    using assms by (simp add: keyed_def AList.distinct_delete)
  moreover have "\<forall>e \<in> set (AList.delete k b). case e of (k, p) \<Rightarrow> k = (piece_x p, piece_y p)"
    using assms set_delete_subset[of k b] by (auto simp: keyed_def list_all_iff)
  ultimately show ?thesis by (simp add: keyed_def list_all_iff)
qed

lemma keyed_addPieces: "keyed b \<Longrightarrow> keyed (addPieces ps b)"
  by (induction ps arbitrary: b) (simp_all add: keyed_update)

lemma board_join_game:
  "board (fst (join_game sp s sock playerName uuid now)) =
     (if MAX_PLAYERS \<le> length (players s) then board s
      else addPieces (startingPieces (findSpawnPosition sp (board s) 25)
                        (nextPlayerIndex s mod PLAYER_COLORS_length) uuid) (board s))"
  by (simp add: join_game_def spawnPlayerPieces_def Let_def)

lemma board_move_piece:
  "board (fst (move_piece s sock m)) = board s \<or>
   (\<exists>p. board (fst (move_piece s sock m)) =
          AList.update (toX m, toY m) (p\<lparr>piece_x := toX m, piece_y := toY m\<rparr>)
            (AList.delete (fromX m, fromY m) (board s)))"
  by (auto simp: move_piece_def Let_def split: option.splits)

lemma board_other:
  "board (fst (handle sp s (GetBoardSection sock bnds))) = board s"
  "board (fst (disconnect s sock)) = board s"
  by (simp_all add: get_board_section_def disconnect_def split: option.splits)

lemma keyed_handle: "keyed (board s) \<Longrightarrow> keyed (board (fst (handle sp s c)))"
proof (cases c)
  case (JoinGame sock playerName uuid now)
  assume "keyed (board s)"
  then show ?thesis using JoinGame by (simp add: board_join_game keyed_addPieces)
next
  case (MovePiece sock m)
  assume k: "keyed (board s)"
  from board_move_piece[of s sock m] show ?thesis
  proof
    assume "board (fst (move_piece s sock m)) = board s"
    then show ?thesis using k MovePiece by simp
  next
    assume "\<exists>p. board (fst (move_piece s sock m)) =
          AList.update (toX m, toY m) (p\<lparr>piece_x := toX m, piece_y := toY m\<rparr>)
            (AList.delete (fromX m, fromY m) (board s))"
    then obtain p where "board (fst (move_piece s sock m)) =
          AList.update (toX m, toY m) (p\<lparr>piece_x := toX m, piece_y := toY m\<rparr>)
            (AList.delete (fromX m, fromY m) (board s))" ..
    moreover have "keyed (AList.update (toX m, toY m) (p\<lparr>piece_x := toX m, piece_y := toY m\<rparr>)
            (AList.delete (fromX m, fromY m) (board s)))"
      by (rule keyed_update[OF keyed_delete[OF k]]) simp
    ultimately show ?thesis using MovePiece by simp
  qed
next
  case (GetBoardSection sock bnds)
  assume "keyed (board s)"
  then show ?thesis by (simp only: GetBoardSection board_other)
next
  case (Disconnect sock)
  assume "keyed (board s)"
  then show ?thesis using Disconnect by (simp add: board_other)
qed

lemma reachable_keyed: "reachable sp s \<Longrightarrow> keyed (board s)"
proof (induction rule: reachable.induct)
  case reachable_init
  show ?case by (simp add: keyed_def initialState_def)
next
  case (reachable_step s c)
  then show ?case by (simp add: keyed_handle)
qed

text \<open>
  Claim C4. In every state reachable from the initial empty board by join, move, section
  query and disconnect commands, the board has at most one entry per coordinate: its
  keys are pairwise distinct, a coordinate determines its piece, and no two stored
  pieces carry the same position.
\<close>

theorem one_piece_per_coordinate:
  assumes "reachable sp s"
  shows "distinct (map fst (board s))
       \<and> (\<forall>c p q. (c, p) \<in> set (board s) \<and> (c, q) \<in> set (board s) \<longrightarrow> p = q)
       \<and> distinct (map (\<lambda>(k, p). (piece_x p, piece_y p)) (board s))"
proof -
  have k: "keyed (board s)" using assms by (rule reachable_keyed)
  then have d: "distinct (map fst (board s))" by (simp add: keyed_def)
  have "map (\<lambda>(k, p). (piece_x p, piece_y p)) (board s) = map fst (board s)"
    using k by (auto simp: keyed_def list_all_iff)
  with d have "distinct (map (\<lambda>(k, p). (piece_x p, piece_y p)) (board s))"
    by (simp only:)
  moreover have "\<forall>c p q. (c, p) \<in> set (board s) \<and> (c, q) \<in> set (board s) \<longrightarrow> p = q"
    using d by (meson eq_key_imp_eq_value)
  ultimately show ?thesis using d by blast
qed

lemma reachable_afterFirstJoin: "reachable exampleSpiral afterFirstJoin"
  unfolding afterFirstJoin_def by (rule reachable_step[OF reachable_init])

theorem one_piece_per_coordinate_witness:
  "reachable exampleSpiral afterFirstJoin
   \<and> distinct (map fst (board afterFirstJoin))
   \<and> length (board afterFirstJoin) = 16"
  using one_piece_per_coordinate[OF reachable_afterFirstJoin] reachable_afterFirstJoin
  by (simp add: afterFirstJoin_board aliceBoard_def)

text \<open>
  Claim C9, as the code has it. A stored piece does carry its position: the objects
  built by \<open>spawnPlayerPieces\<close> have \<open>x\<close> and \<open>y\<close> fields, and \<open>move-piece\<close> rewrites them.
  In every reachable state the two representations agree: the fields of a stored piece
  are the coordinate it is stored under.
\<close>

theorem position_fields_agree_with_key:
  assumes "reachable sp s" and "map_of (board s) c = Some p"
  shows "(piece_x p, piece_y p) = c"
proof -
  have "keyed (board s)" using assms(1) by (rule reachable_keyed)
  moreover have "(c, p) \<in> set (board s)" using assms(2) by (rule map_of_SomeD)
  ultimately show ?thesis by (auto simp: keyed_def list_all_iff)
qed

theorem position_fields_agree_with_key_witness:
  "reachable exampleSpiral afterFirstJoin
   \<and> map_of (board afterFirstJoin) (4, 1) = Some (mkPiece Pawn 4 1 0 7)
   \<and> (piece_x (mkPiece Pawn 4 1 0 7), piece_y (mkPiece Pawn 4 1 0 7)) = (4, 1)"
proof -
  have m: "map_of (board afterFirstJoin) (4, 1) = Some (mkPiece Pawn 4 1 0 7)"
    by (simp add: afterFirstJoin_board aliceBoard_def)
  show ?thesis
    using position_fields_agree_with_key[OF reachable_afterFirstJoin m] reachable_afterFirstJoin m
    by simp
qed

text \<open>The claim as stated has the stored value free of position, so that a move would
  carry the value unchanged from one key to another. After the first join the pawn
  stored under \<open>(0, 1)\<close> holds \<open>x = 0\<close>, \<open>y = 1\<close>; moved to \<open>(0, 2)\<close>, the value stored
  there holds \<open>y = 2\<close> and differs from the one that was stored.\<close>

theorem piece_carries_position_counterexample:
  "map_of (board afterFirstJoin) (0, 1) = Some (mkPiece Pawn 0 1 0 7)
   \<and> map_of (board (fst (move_piece afterFirstJoin 11 \<lparr>fromX = 0, fromY = 1, toX = 0, toY = 2\<rparr>)))
        (0, 2) = Some (mkPiece Pawn 0 2 0 7)
   \<and> mkPiece Pawn 0 2 0 7 \<noteq> mkPiece Pawn 0 1 0 7
   \<and> piece_x (mkPiece Pawn 0 1 0 7) = 0 \<and> piece_y (mkPiece Pawn 0 1 0 7) = 1"
  by (simp add: move_piece_def currentPlayer_alice afterFirstJoin_board
      aliceBoard_def Let_def mkPiece_def)

section \<open>Spawn separation\<close>

lemma validPosition_iff:
  "validPosition existing minDistance c \<longleftrightarrow>
     (\<forall>pos \<in> set existing. real_of_int minDistance \<le> distance c pos)"
  by (simp add: validPosition_def list_all_iff)

lemma validPosition_squares:
  assumes "0 \<le> minDistance"
  shows "validPosition existing minDistance c =
         list_all (\<lambda>pos. minDistance\<^sup>2 \<le> (fst c - fst pos)\<^sup>2 + (snd c - snd pos)\<^sup>2) existing"
  unfolding validPosition_def by (simp only: distance_ge_iff[OF assms])

lemma distance_commute: "distance a b = distance b a"
  by (simp add: distance_def power2_commute)

lemma spiralSearch_first:
  "spiralSearch sp existing minDistance k = Some c \<Longrightarrow>
     \<exists>j. k \<le> j \<and> j < maxAttempts \<and> c = spiralAt sp j
        \<and> validPosition existing minDistance c
        \<and> (\<forall>i. k \<le> i \<and> i < j \<longrightarrow> \<not> validPosition existing minDistance (spiralAt sp i))"
proof (induction sp existing minDistance k rule: spiralSearch.induct)
  case (1 sp existing minDistance attempts)
  show ?case
  proof (cases "attempts < maxAttempts")
    case False
    then show ?thesis using "1.prems" by (simp add: spiralSearch.simps)
  next
    case lt: True
    show ?thesis
    proof (cases "validPosition existing minDistance (spiralAt sp attempts)")
      case True
      then have "c = spiralAt sp attempts"
        using "1.prems" lt by (simp add: spiralSearch.simps)
      then show ?thesis using True lt by auto
    next
      case False
      then have "spiralSearch sp existing minDistance (attempts + 1) = Some c"
        using "1.prems" lt by (simp add: spiralSearch.simps)
      from "1.IH"[OF lt False this] obtain j where j: "attempts + 1 \<le> j" "j < maxAttempts"
        "c = spiralAt sp j" "validPosition existing minDistance c"
        "\<forall>i. attempts + 1 \<le> i \<and> i < j \<longrightarrow> \<not> validPosition existing minDistance (spiralAt sp i)"
        by blast
      have "\<forall>i. attempts \<le> i \<and> i < j \<longrightarrow> \<not> validPosition existing minDistance (spiralAt sp i)"
      proof (intro allI impI)
        fix i assume i: "attempts \<le> i \<and> i < j"
        show "\<not> validPosition existing minDistance (spiralAt sp i)"
        proof (cases "i = attempts")
          case True then show ?thesis using False by simp
        next
          case False then show ?thesis using i j(5) by simp
        qed
      qed
      with j have "attempts \<le> j \<and> j < maxAttempts \<and> c = spiralAt sp j
        \<and> validPosition existing minDistance c
        \<and> (\<forall>i. attempts \<le> i \<and> i < j \<longrightarrow> \<not> validPosition existing minDistance (spiralAt sp i))"
        by simp
      then show ?thesis by (rule exI)
    qed
  qed
qed

lemma findSpawnPosition_valid:
  assumes "\<not> usedFallback sp b"
  shows "validPosition (existingPositions b) 25 (findSpawnPosition sp b 25)"
proof (cases "existingPositions b = []")
  case True
  then show ?thesis by (simp add: validPosition_def)
next
  case False
  with assms obtain c where c: "spiralSearch sp (existingPositions b) 25 0 = Some c"
    by (auto simp: usedFallback_def)
  from spiralSearch_first[OF c] have "validPosition (existingPositions b) 25 c" by blast
  then show ?thesis using False c by (simp add: findSpawnPosition_def)
qed

lemma existingPositions_simps:
  "existingPositions [] = []"
  "existingPositions ((k, p) # b) =
     (if playerId p \<noteq> None then k # existingPositions b else existingPositions b)"
  by (simp_all add: existingPositions_def)

lemma existing_update:
  "playerId v \<noteq> None \<Longrightarrow>
     set (existingPositions (AList.update k v b)) = insert k (set (existingPositions b))"
proof (induction b)
  case Nil
  then show ?case by (simp add: existingPositions_simps)
next
  case (Cons e b)
  obtain k' p where e: "e = (k', p)" by (cases e)
  show ?case
  proof (cases "k' = k")
    case True
    then show ?thesis using Cons.prems e by (auto simp: existingPositions_simps)
  next
    case False
    then show ?thesis using Cons e by (auto simp: existingPositions_simps)
  qed
qed

lemma existing_addPieces:
  "list_all (\<lambda>p. playerId p \<noteq> None) ps \<Longrightarrow>
     set (existingPositions (addPieces ps b))
       = (\<lambda>p. (piece_x p, piece_y p)) ` set ps \<union> set (existingPositions b)"
  by (induction ps arbitrary: b) (auto simp: existing_update)

lemma startingPieces_owned: "list_all (\<lambda>p. playerId p \<noteq> None) (startingPieces a col pl)"
  by (simp add: startingPieces_def Let_def)

lemma anchor_in_startingPieces:
  "a \<in> (\<lambda>p. (piece_x p, piece_y p)) ` set (startingPieces a col pl)"
proof -
  have "mkPiece Queen (fst a) (snd a) col pl \<in> set (startingPieces a col pl)"
    by (simp add: startingPieces_def Let_def)
  then show ?thesis by (rule image_eqI[rotated]) simp
qed

lemma separated_snoc:
  "separated d (as @ [a]) \<longleftrightarrow> separated d as \<and> (\<forall>x \<in> set as. real_of_int d \<le> distance x a)"
  by (induction as) (auto simp: list_all_iff)

lemma anchors_separated_from:
  assumes "list_all (\<lambda>c. \<not> isMove c) cmds" and "noFallback sp s cmds"
      and "separated 25 as" and "set as \<subseteq> set (existingPositions (board s))"
  shows "separated 25 (as @ anchorsOf sp s cmds)"
  using assms
proof (induction cmds arbitrary: s as)
  case Nil
  then show ?case by simp
next
  case (Cons c cs)
  have rest: "list_all (\<lambda>c. \<not> isMove c) cs" "noFallback sp (fst (handle sp s c)) cs"
    using Cons.prems(1,2) by simp_all
  show ?case
  proof (cases "joinAccepted s c")
    case True
    then obtain sock playerName uuid now where c: "c = JoinGame sock playerName uuid now"
      and room: "length (players s) < MAX_PLAYERS"
      by (cases c) simp_all
    define a where "a = findSpawnPosition sp (board s) 25"
    have "\<not> usedFallback sp (board s)" using Cons.prems(2) True by simp
    then have "validPosition (existingPositions (board s)) 25 a"
      unfolding a_def by (rule findSpawnPosition_valid)
    then have "\<forall>x \<in> set as. real_of_int 25 \<le> distance x a"
      using Cons.prems(4) by (auto simp: validPosition_iff distance_commute)
    then have sep: "separated 25 (as @ [a])"
      using Cons.prems(3) by (simp only: separated_snoc simp_thms)
    have b': "board (fst (handle sp s c)) =
               addPieces (startingPieces a (nextPlayerIndex s mod PLAYER_COLORS_length) uuid) (board s)"
      using room by (simp add: c join_game_def spawnPlayerPieces_def Let_def a_def)
    have sub: "set (as @ [a]) \<subseteq> set (existingPositions (board (fst (handle sp s c))))"
      using Cons.prems(4) anchor_in_startingPieces[of a]
      by (auto simp: b' existing_addPieces[OF startingPieces_owned])
    from Cons.IH[OF rest sep sub] show ?thesis
      using True by (simp add: a_def)
  next
    case False
    have "board (fst (handle sp s c)) = board s"
    proof (cases c)
      case (JoinGame sock playerName uuid now)
      then show ?thesis using False by (simp add: join_game_def)
    next
      case (MovePiece sock m)
      then show ?thesis using Cons.prems(1) by simp
    next
      case (GetBoardSection sock bnds)
      then show ?thesis by (simp only: board_other)
    next
      case (Disconnect sock)
      then show ?thesis by (simp add: disconnect_def split: option.splits)
    qed
    then have "set as \<subseteq> set (existingPositions (board (fst (handle sp s c))))"
      using Cons.prems(4) by simp
    from Cons.IH[OF rest Cons.prems(3) this] show ?thesis
      using False by simp
  qed
qed

text \<open>
  Claim C5, as the code has it. \<open>findSpawnPosition\<close> measures a candidate against the
  coordinate of every owned piece on the board, not against anchors. Over a run of
  joins, disconnects and section queries from the empty board in which no join takes
  the fallback scan, the anchors are pairwise at Euclidean distance 25 or more. When
  the board holds owned pieces and the spiral search succeeds, the anchor is the first
  candidate in spiral order, within the attempt bound, whose distance to every owned
  piece is 25 or more; every earlier candidate fails that test. Placement is a
  function of the board, hence of the commands so far.
\<close>

theorem spawn_anchors_separated:
  assumes "list_all (\<lambda>c. \<not> isMove c) cmds" and "noFallback sp initialState cmds"
  shows "separated 25 (anchorsOf sp initialState cmds)
       \<and> (\<forall>b c. existingPositions b \<noteq> [] \<and> spiralSearch sp (existingPositions b) 25 0 = Some c \<longrightarrow>
             findSpawnPosition sp b 25 = c
             \<and> (\<exists>j. j < maxAttempts \<and> c = spiralAt sp j
                  \<and> (\<forall>pos \<in> set (existingPositions b). 25 \<le> distance c pos)
                  \<and> (\<forall>i. i < j \<longrightarrow> \<not> (\<forall>pos \<in> set (existingPositions b).
                                           25 \<le> distance (spiralAt sp i) pos))))"
proof -
  have "separated 25 ([] @ anchorsOf sp initialState cmds)"
    by (rule anchors_separated_from[OF assms]) simp_all
  then have A: "separated 25 (anchorsOf sp initialState cmds)" by simp
  have B: "findSpawnPosition sp b 25 = c
             \<and> (\<exists>j. j < maxAttempts \<and> c = spiralAt sp j
                  \<and> (\<forall>pos \<in> set (existingPositions b). 25 \<le> distance c pos)
                  \<and> (\<forall>i. i < j \<longrightarrow> \<not> (\<forall>pos \<in> set (existingPositions b).
                                           25 \<le> distance (spiralAt sp i) pos)))"
    if "existingPositions b \<noteq> []" "spiralSearch sp (existingPositions b) 25 0 = Some c" for b c
  proof -
    have "findSpawnPosition sp b 25 = c" using that by (simp add: findSpawnPosition_def)
    moreover from spiralSearch_first[OF that(2)] 
    have "\<exists>j. j < maxAttempts \<and> c = spiralAt sp j
                  \<and> (\<forall>pos \<in> set (existingPositions b). 25 \<le> distance c pos)
                  \<and> (\<forall>i. i < j \<longrightarrow> \<not> (\<forall>pos \<in> set (existingPositions b).
                                           25 \<le> distance (spiralAt sp i) pos))"
      by (simp add: validPosition_iff)
    ultimately show ?thesis by blast
  qed
  from A B show ?thesis by blast
qed

subsection \<open>The second join of the concrete run\<close>

lemma existing_aliceBoard:
  "existingPositions aliceBoard =
     [(-3, 0), (-2, 0), (-1, 0), (0, 0), (1, 0), (2, 0), (3, 0), (4, 0),
      (-3, 1), (-2, 1), (-1, 1), (0, 1), (1, 1), (2, 1), (3, 1), (4, 1)]"
  by (simp add: existingPositions_def aliceBoard_def)

lemma spiralSearch_skip:
  assumes "\<forall>i. k \<le> i \<and> i < j \<longrightarrow> \<not> validPosition ex d (spiralAt sp i)"
      and "k \<le> j" and "j < maxAttempts" and "validPosition ex d (spiralAt sp j)"
  shows "spiralSearch sp ex d k = Some (spiralAt sp j)"
  using assms
proof (induction "j - k" arbitrary: k)
  case 0
  then have "k = j" by simp
  then show ?case using "0.prems"(3,4) by (simp add: spiralSearch.simps)
next
  case (Suc n)
  then have lt: "k < j" by simp
  then have "\<not> validPosition ex d (spiralAt sp k)" using Suc.prems(1) by simp
  then have "spiralSearch sp ex d k = spiralSearch sp ex d (k + 1)"
    using lt Suc.prems(3) by (subst spiralSearch.simps) simp
  also have "\<dots> = Some (spiralAt sp j)"
    using Suc.hyps(2) Suc.prems lt by (intro Suc.hyps(1)) simp_all
  finally show ?case .
qed

lemma early_candidates_rejected:
  "list_all (\<lambda>c. \<not> validPosition (existingPositions aliceBoard) 25 c) (take 12 firstRevolution)"
  by (simp add: validPosition_squares existing_aliceBoard firstRevolution_def)

lemma thirteenth_candidate_valid:
  "validPosition (existingPositions aliceBoard) 25 (0, -25)"
  by (simp add: validPosition_squares existing_aliceBoard)

lemma spiral_after_alice:
  "spiralSearch exampleSpiral (existingPositions aliceBoard) 25 0 = Some (0, -25)"
proof -
  have at: "spiralAt exampleSpiral i = firstRevolution ! i" if "i < 16" for i
    using that by (simp add: exampleSpiral_def firstRevolution_def)
  have rej: "\<not> validPosition (existingPositions aliceBoard) 25 (spiralAt exampleSpiral i)"
    if "i < 12" for i
  proof -
    have "i < length (take 12 firstRevolution)" using that by (simp add: firstRevolution_def)
    moreover have "\<forall>n < length (take 12 firstRevolution).
            \<not> validPosition (existingPositions aliceBoard) 25 (take 12 firstRevolution ! n)"
      using early_candidates_rejected by (simp only: list_all_length)
    ultimately
    have "\<not> validPosition (existingPositions aliceBoard) 25 (take 12 firstRevolution ! i)"
      by blast
    then show ?thesis using that by (simp add: at)
  qed
  have twelve: "spiralAt exampleSpiral 12 = (0, -25)"
    by (simp add: exampleSpiral_def firstRevolution_def)
  have "spiralSearch exampleSpiral (existingPositions aliceBoard) 25 0
        = Some (spiralAt exampleSpiral 12)"
    by (rule spiralSearch_skip) (simp_all add: rej twelve thirteenth_candidate_valid maxAttempts_def)
  then show ?thesis by (simp only: twelve)
qed

lemma findSpawn_initial: "findSpawnPosition exampleSpiral (board initialState) 25 = (0, 0)"
  by (simp add: findSpawnPosition_def existingPositions_def initialState_def)

lemma findSpawn_after_alice: "findSpawnPosition exampleSpiral (board afterFirstJoin) 25 = (0, -25)"
  unfolding findSpawnPosition_def afterFirstJoin_board Let_def spiral_after_alice
  by (simp add: existing_aliceBoard)

lemma accepted_joins:
  "joinAccepted initialState aliceJoins" "joinAccepted afterFirstJoin bobJoins"
  by (simp_all add: aliceJoins_def bobJoins_def initialState_def afterFirstJoin_players
      MAX_PLAYERS_def)

lemma anchors_two_joins:
  "anchorsOf exampleSpiral initialState [aliceJoins, bobJoins] = [(0, 0), (0, -25)]"
  by (simp add: accepted_joins findSpawn_initial findSpawn_after_alice flip: afterFirstJoin_def)

lemma noFallback_two_joins: "noFallback exampleSpiral initialState [aliceJoins, bobJoins]"
proof -
  have "\<not> usedFallback exampleSpiral (board initialState)"
    by (simp add: usedFallback_def existingPositions_def initialState_def)
  moreover have "\<not> usedFallback exampleSpiral (board afterFirstJoin)"
    unfolding usedFallback_def afterFirstJoin_board spiral_after_alice by simp
  ultimately show ?thesis by (simp flip: afterFirstJoin_def)
qed

theorem spawn_anchors_separated_witness:
  "list_all (\<lambda>c. \<not> isMove c) [aliceJoins, bobJoins]
   \<and> noFallback exampleSpiral initialState [aliceJoins, bobJoins]
   \<and> anchorsOf exampleSpiral initialState [aliceJoins, bobJoins] = [(0, 0), (0, -25)]
   \<and> separated 25 [(0, 0), (0, -25)]"
proof -
  have nm: "list_all (\<lambda>c. \<not> isMove c) [aliceJoins, bobJoins]"
    by (simp add: aliceJoins_def bobJoins_def)
  from spawn_anchors_separated[OF nm noFallback_two_joins]
  have "separated 25 (anchorsOf exampleSpiral initialState [aliceJoins, bobJoins])" by blast
  then have "separated 25 [(0, 0), (0, -25)]" by (simp only: anchors_two_joins)
  with nm noFallback_two_joins anchors_two_joins show ?thesis by blast
qed

subsection \<open>A third join after the second player has moved away\<close>

lemma afterFirstJoin_index: "nextPlayerIndex afterFirstJoin = 1"
  by (simp add: afterFirstJoin_def aliceJoins_def join_game_def initialState_def MAX_PLAYERS_def
      Let_def)

lemma afterSecondJoin_board: "board afterSecondJoin = aliceBoard @ bobBoard"
  unfolding afterSecondJoin_def bobJoins_def handle.simps board_join_game findSpawn_after_alice
  by (simp add: afterFirstJoin_players afterFirstJoin_board afterFirstJoin_index MAX_PLAYERS_def
      startingPieces_def Let_def aliceBoard_def bobBoard_def PLAYER_COLORS_length_def)

lemma afterSecondJoin_bob:
  "currentPlayer afterSecondJoin 12 =
     Some \<lparr> player_id = 8, socketId = 12, player_name = ''Bob'', player_color = 1,
            colorIndex = 1, isActive = True, joinedAt = 5 \<rparr>"
  by (simp add: afterSecondJoin_def bobJoins_def join_game_def currentPlayer_def
      afterFirstJoin_players afterFirstJoin_index MAX_PLAYERS_def Let_def nameOrDefault_def
      PLAYER_COLORS_length_def)

lemma afterSecondJoin_size: "length (players afterSecondJoin) = 2"
  by (simp add: afterSecondJoin_def bobJoins_def join_game_def
      afterFirstJoin_players MAX_PLAYERS_def Let_def)

lemma move_keeps_registry:
  "players (fst (move_piece s sock m)) = players s"
  "socketPlayerId (fst (move_piece s sock m)) = socketPlayerId s"
  by (simp_all add: move_piece_def Let_def split: option.splits)

lemma currentPlayer_after_move:
  "currentPlayer (fst (move_piece s sock m)) sock' = currentPlayer s sock'"
  by (simp add: currentPlayer_def move_keeps_registry split: option.splits)

lemma run_moves_registry:
  "list_all isMove cs \<Longrightarrow>
     players (run sp s cs) = players s \<and> currentPlayer (run sp s cs) sock = currentPlayer s sock"
proof (induction cs arbitrary: s)
  case Nil
  then show ?case by simp
next
  case (Cons c cs)
  then obtain sock' m where "c = MovePiece sock' m" by (cases c) simp_all
  then show ?case using Cons by (simp add: move_keeps_registry currentPlayer_after_move)
qed

lemma anchorsOf_after_moves:
  "list_all isMove cs \<Longrightarrow> anchorsOf sp s (cs @ rest) = anchorsOf sp (run sp s cs) rest"
proof (induction cs arbitrary: s)
  case Nil
  then show ?case by simp
next
  case (Cons c cs)
  then obtain sock m where "c = MovePiece sock m" by (cases c) simp_all
  then show ?case using Cons by simp
qed

lemma board_move_piece_moveOn:
  "currentPlayer s sock = Some pl \<Longrightarrow>
     board (fst (move_piece s sock m)) = moveOn (player_id pl) (board s) m"
  by (simp add: move_piece_def moveOn_def Let_def split: option.splits)

lemma run_moves_board:
  "currentPlayer s sock = Some pl \<Longrightarrow>
     board (run sp s (map (MovePiece sock) ms)) = foldl (moveOn (player_id pl)) (board s) ms"
proof (induction ms arbitrary: s)
  case Nil
  then show ?case by simp
next
  case (Cons m ms)
  have "currentPlayer (fst (move_piece s sock m)) sock = Some pl"
    using Cons.prems by (simp add: currentPlayer_after_move)
  from Cons.IH[OF this] show ?case
    using Cons.prems by (simp add: board_move_piece_moveOn)
qed

lemma noFallback_after_moves:
  "list_all isMove cs \<Longrightarrow> noFallback sp s (cs @ rest) = noFallback sp (run sp s cs) rest"
proof (induction cs arbitrary: s)
  case Nil
  then show ?case by simp
next
  case (Cons c cs)
  then obtain sock m where "c = MovePiece sock m" by (cases c) simp_all
  then show ?case using Cons by simp
qed

lemma bob_moves_away:
  "foldl (moveOn 8) (aliceBoard @ bobBoard) bobMoves = aliceBoard @ bobAwayBoard"
  by (simp add: bobMoves_def moveOn_def aliceBoard_def bobBoard_def bobAwayBoard_def mkPiece_def)

lemma afterEvacuation_board: "board afterEvacuation = aliceBoard @ bobAwayBoard"
  unfolding afterEvacuation_def bobEvacuates_def
  using run_moves_board[OF afterSecondJoin_bob, of exampleSpiral bobMoves]
  by (simp add: afterSecondJoin_board bob_moves_away)

lemma existingPositions_append:
  "existingPositions (a @ b) = existingPositions a @ existingPositions b"
  by (simp add: existingPositions_def)

lemma validPosition_append:
  "validPosition (ex @ ex') d c \<longleftrightarrow> validPosition ex d c \<and> validPosition ex' d c"
  by (simp add: validPosition_def)

lemma existing_bobAwayBoard:
  "existingPositions bobAwayBoard =
     [(97, 75), (98, 75), (99, 75), (100, 75), (101, 75), (102, 75), (103, 75), (104, 75),
      (97, 76), (98, 76), (99, 76), (100, 76), (101, 76), (102, 76), (103, 76), (104, 76)]"
  by (simp add: existingPositions_def bobAwayBoard_def)

lemma spiral_after_evacuation:
  "spiralSearch exampleSpiral (existingPositions (aliceBoard @ bobAwayBoard)) 25 0 = Some (0, -25)"
proof -
  have at: "spiralAt exampleSpiral i = firstRevolution ! i" if "i < 16" for i
    using that by (simp add: exampleSpiral_def firstRevolution_def)
  have rej: "\<not> validPosition (existingPositions aliceBoard) 25 (spiralAt exampleSpiral i)"
    if "i < 12" for i
  proof -
    have "i < length (take 12 firstRevolution)" using that by (simp add: firstRevolution_def)
    moreover have "\<forall>n < length (take 12 firstRevolution).
            \<not> validPosition (existingPositions aliceBoard) 25 (take 12 firstRevolution ! n)"
      using early_candidates_rejected by (simp only: list_all_length)
    ultimately
    have "\<not> validPosition (existingPositions aliceBoard) 25 (take 12 firstRevolution ! i)"
      by blast
    then show ?thesis using that by (simp add: at)
  qed
  have twelve: "spiralAt exampleSpiral 12 = (0, -25)"
    by (simp add: exampleSpiral_def firstRevolution_def)
  have far: "validPosition (existingPositions bobAwayBoard) 25 (0, -25)"
    by (simp add: validPosition_squares existing_bobAwayBoard)
  have "spiralSearch exampleSpiral (existingPositions (aliceBoard @ bobAwayBoard)) 25 0
        = Some (spiralAt exampleSpiral 12)"
    by (rule spiralSearch_skip)
       (simp_all add: rej twelve thirteenth_candidate_valid far maxAttempts_def
          existingPositions_append validPosition_append)
  then show ?thesis by (simp only: twelve)
qed

lemma findSpawn_after_evacuation:
  "findSpawnPosition exampleSpiral (board afterEvacuation) 25 = (0, -25)"
  unfolding findSpawnPosition_def afterEvacuation_board Let_def spiral_after_evacuation
  by (simp add: existingPositions_append existing_aliceBoard)

lemma accepted_carol: "joinAccepted afterEvacuation carolJoins"
proof -
  have "list_all isMove bobEvacuates" by (simp add: bobEvacuates_def list_all_iff)
  then have "players afterEvacuation = players afterSecondJoin"
    unfolding afterEvacuation_def using run_moves_registry by blast
  then show ?thesis by (simp add: carolJoins_def afterSecondJoin_size MAX_PLAYERS_def)
qed

lemma anchors_with_moves:
  "anchorsOf exampleSpiral initialState ([aliceJoins, bobJoins] @ bobEvacuates @ [carolJoins])
     = [(0, 0), (0, -25), (0, -25)]"
proof -
  have mv: "list_all isMove bobEvacuates" by (simp add: bobEvacuates_def list_all_iff)
  have "anchorsOf exampleSpiral afterSecondJoin (bobEvacuates @ [carolJoins]) = [(0, -25)]"
    unfolding anchorsOf_after_moves[OF mv] afterEvacuation_def[symmetric]
    by (simp add: accepted_carol findSpawn_after_evacuation)
  then show ?thesis
    by (simp add: accepted_joins findSpawn_initial findSpawn_after_alice
          flip: afterFirstJoin_def afterSecondJoin_def)
qed

lemma noFallback_with_moves:
  "noFallback exampleSpiral initialState ([aliceJoins, bobJoins] @ bobEvacuates @ [carolJoins])"
proof -
  have mv: "list_all isMove bobEvacuates" by (simp add: bobEvacuates_def list_all_iff)
  have "\<not> usedFallback exampleSpiral (board afterEvacuation)"
    unfolding usedFallback_def afterEvacuation_board spiral_after_evacuation by simp
  then have "noFallback exampleSpiral afterSecondJoin (bobEvacuates @ [carolJoins])"
    unfolding noFallback_after_moves[OF mv] afterEvacuation_def[symmetric] by simp
  moreover have "\<not> usedFallback exampleSpiral (board initialState)"
    by (simp add: usedFallback_def existingPositions_def initialState_def)
  moreover have "\<not> usedFallback exampleSpiral (board afterFirstJoin)"
    unfolding usedFallback_def afterFirstJoin_board spiral_after_alice by simp
  ultimately show ?thesis
    by (simp flip: afterFirstJoin_def afterSecondJoin_def)
qed

lemma same_anchor_not_separated: "\<not> separated 25 [(0, 0), (0, -25), (0, -25)]"
proof -
  have "\<not> real_of_int 25 \<le> distance (0, -25) (0, -25)"
    by (simp only: distance_ge_iff) simp
  then show ?thesis by simp
qed

text \<open>The claim as stated takes the first candidate that is far enough from every
  existing anchor. After the first join the only anchor is \<open>(0, 0)\<close> and the first
  candidate \<open>(25, 0)\<close> is at distance 25 from it; the rook on \<open>(4, 0)\<close> is nearer than
  25, the candidate is passed over, and the second anchor is \<open>(0, -25)\<close>. Nor does the
  separation hold across moves: once the second player's pieces have left, the third
  join, still within the spiral, is anchored on \<open>(0, -25)\<close> again.\<close>

theorem anchors_measured_against_pieces_counterexample:
  "anchorsOf exampleSpiral initialState [aliceJoins] = [(0, 0)]
   \<and> spiralAt exampleSpiral 0 = (25, 0)
   \<and> 25 \<le> distance (25, 0) (0, 0)
   \<and> map_of (board afterFirstJoin) (4, 0) = Some (mkPiece Rook 4 0 0 7)
   \<and> distance (25, 0) (4, 0) < 25
   \<and> findSpawnPosition exampleSpiral (board afterFirstJoin) 25 = (0, -25)
   \<and> noFallback exampleSpiral initialState ([aliceJoins, bobJoins] @ bobEvacuates @ [carolJoins])
   \<and> anchorsOf exampleSpiral initialState ([aliceJoins, bobJoins] @ bobEvacuates @ [carolJoins])
       = [(0, 0), (0, -25), (0, -25)]
   \<and> \<not> separated 25 [(0, 0), (0, -25), (0, -25)]"
proof -
  have "real_of_int 25 \<le> distance (25, 0) (0, 0)" "\<not> real_of_int 25 \<le> distance (25, 0) (4, 0)"
    by (simp_all only: distance_ge_iff) simp_all
  then have "25 \<le> distance (25, 0) (0, 0)" "distance (25, 0) (4, 0) < 25"
    by simp_all
  moreover have "anchorsOf exampleSpiral initialState [aliceJoins] = [(0, 0)]"
    by (simp add: accepted_joins findSpawn_initial)
  moreover have "spiralAt exampleSpiral 0 = (25, 0)"
    by (simp add: exampleSpiral_def firstRevolution_def)
  moreover have "map_of (board afterFirstJoin) (4, 0) = Some (mkPiece Rook 4 0 0 7)"
    by (simp add: afterFirstJoin_board aliceBoard_def)
  ultimately show ?thesis
    using findSpawn_after_alice noFallback_with_moves anchors_with_moves same_anchor_not_separated
    by blast
qed

end
